theory Spec2Isabelle
  imports Complex_Main "HOL-Library.AList"
begin

section \<open>Values of the scripts\<close>

text \<open>
  Every value the four scripts handle comes out of \<^verbatim>\<open>json.load\<close> or
  \<^verbatim>\<open>response.json()\<close>, so one datatype of decoded JSON covers them. Python's
  \<^verbatim>\<open>None\<close> is \<open>JNull\<close>: a function documented as "dict, or None on failure"
  returns a \<open>json\<close>, and a body that is the JSON text \<^verbatim>\<open>null\<close> is the same value
  as a failure, as it is in the source. A \<^verbatim>\<open>dict\<close> keeps insertion order and assigning to
  a present key keeps its place, which is what \<open>AList.update\<close> does on an association list.
  The keys of a decoded dict are distinct; no property below needs that, so it is not imposed.
  A finite float is a rational here (only its sign, its comparison with 1 and its type are
  ever observed). A string is a list of 8-bit characters, read as code points below 256.
  An exception that leaves a function is the \<open>Inl\<close> of its result; one that a
  \<^verbatim>\<open>try\<close> of the source catches is the value its handler returns.
\<close>

datatype json =
    JNull
  | JBool bool
  | JInt int
  | JFloat rat
  | JStr string
  | JArr "json list"
  | JObj "(string \<times> json) list"

datatype py_error = TypeError | AttributeError | OSError

text \<open>Truth value of a Python object, as \<^verbatim>\<open>if x:\<close> and \<^verbatim>\<open>not x\<close> test it.\<close>

fun truthy :: "json \<Rightarrow> bool" where
  "truthy JNull = False"
| "truthy (JBool b) = b"
| "truthy (JInt i) = (i \<noteq> 0)"
| "truthy (JFloat r) = (r \<noteq> 0)"
| "truthy (JStr s) = (s \<noteq> [])"
| "truthy (JArr xs) = (xs \<noteq> [])"
| "truthy (JObj kvs) = (kvs \<noteq> [])"

text \<open>\<^verbatim>\<open>d.get(k, default)\<close> on a dict.\<close>

definition dict_get :: "(string \<times> json) list \<Rightarrow> string \<Rightarrow> json \<Rightarrow> json" where
  "dict_get d k dflt = (case map_of d k of None \<Rightarrow> dflt | Some v \<Rightarrow> v)"

text \<open>\<^verbatim>\<open>x.get(k, default)\<close> on any object: only a dict has the method.\<close>

fun py_get :: "json \<Rightarrow> string \<Rightarrow> json \<Rightarrow> py_error + json" where
  "py_get (JObj d) k dflt = Inr (dict_get d k dflt)"
| "py_get _ k dflt = Inl AttributeError"

text \<open>\<^verbatim>\<open>len(x)\<close>: strings, lists and dicts have a length, nothing else does.\<close>

fun py_len :: "json \<Rightarrow> py_error + nat" where
  "py_len (JStr s) = Inr (length s)"
| "py_len (JArr xs) = Inr (length xs)"
| "py_len (JObj d) = Inr (length d)"
| "py_len _ = Inl TypeError"

text \<open>
  Iterating an object (\<^verbatim>\<open>for x in v\<close>, \<^verbatim>\<open>list.extend(v)\<close>): a list gives its
  elements, a string its characters, a dict its keys; the rest is not iterable.
\<close>

fun py_iter :: "json \<Rightarrow> py_error + json list" where
  "py_iter (JArr xs) = Inr xs"
| "py_iter (JStr s) = Inr (map (\<lambda>c. JStr [c]) s)"
| "py_iter (JObj d) = Inr (map (\<lambda>kv. JStr (fst kv)) d)"
| "py_iter _ = Inl TypeError"

subsection \<open>Strings\<close>

fun starts_with :: "string \<Rightarrow> string \<Rightarrow> bool" where
  "starts_with [] s = True"
| "starts_with (p # ps) [] = False"
| "starts_with (p # ps) (c # cs) = (p = c \<and> starts_with ps cs)"

text \<open>\<^verbatim>\<open>p in s\<close> for two strings: \<open>p\<close> occurs in \<open>s\<close> as a substring.\<close>

fun str_contains :: "string \<Rightarrow> string \<Rightarrow> bool" where
  "str_contains p [] = (p = [])"
| "str_contains p (c # cs) = (starts_with p (c # cs) \<or> str_contains p cs)"

text \<open>
  \<^verbatim>\<open>s.replace(old, new)\<close>: every occurrence of \<open>old\<close>, found left to right without
  overlap, becomes \<open>new\<close>. (With an empty \<open>old\<close> Python puts \<open>new\<close> around every
  character; the scripts only pass the constants \<^verbatim>\<open>'.json'\<close> and the nine single
  characters.)
\<close>

function replace :: "string \<Rightarrow> string \<Rightarrow> string \<Rightarrow> string" where
  "replace old new s =
     (if old = [] then new @ concat (map (\<lambda>c. c # new) s)
      else if s = [] then []
      else if starts_with old s then new @ replace old new (drop (length old) s)
      else hd s # replace old new (tl s))"
  by pat_completeness auto
termination
  by (relation "measure (\<lambda>(old, new, s). length s)") auto

declare replace.simps [simp del]

text \<open>
  \<^verbatim>\<open>str.isspace\<close> on the code points below 256, which is what \<^verbatim>\<open>s.strip()\<close>
  removes from both ends.
\<close>

definition py_isspace :: "char \<Rightarrow> bool" where
  "py_isspace c \<longleftrightarrow> (of_char c :: nat) \<in> {9, 10, 11, 12, 13, 28, 29, 30, 31, 32, 133, 160}"

definition strip_with :: "(char \<Rightarrow> bool) \<Rightarrow> string \<Rightarrow> string" where
  "strip_with P s = rev (dropWhile P (rev (dropWhile P s)))"

text \<open>\<^verbatim>\<open>s.strip()\<close> and \<^verbatim>\<open>s.strip(chars)\<close>.\<close>

definition strip :: "string \<Rightarrow> string" where
  "strip s = strip_with py_isspace s"

definition strip_chars :: "string \<Rightarrow> string \<Rightarrow> string" where
  "strip_chars chars s = strip_with (\<lambda>c. c \<in> set chars) s"

text \<open>\<^verbatim>\<open>str(n)\<close> of an integer, as an f-string writes a page number.\<close>

fun str_nat :: "nat \<Rightarrow> string" where
  "str_nat n = (if n < 10 then [''0123456789'' ! n]
                else str_nat (n div 10) @ [''0123456789'' ! (n mod 10)])"

declare str_nat.simps [simp del]

definition str_int :: "int \<Rightarrow> string" where
  "str_int i = (if i < 0 then CHR ''-'' # str_nat (nat (- i)) else str_nat (nat i))"

section \<open>Site Enumerator: file names (parse\_sites.py)\<close>

definition invalid_chars :: "string list" where
  "invalid_chars = [''/'', [CHR 0x5C], '':'', ''*'', ''?'', [CHR 0x22], ''<'', ''>'', ''|'']"

text \<open>
  \<^verbatim>\<open>sanitize_filename(name)\<close> on a string: the loop over \<open>invalid_chars\<close> is the fold,
  then \<^verbatim>\<open>name.strip().strip('.')\<close>, then the default name.
\<close>

definition sanitize_filename :: "string \<Rightarrow> string" where
  "sanitize_filename name =
     (let name1 = fold (\<lambda>char n. replace char ''_'' n) invalid_chars name;
          name2 = strip_chars ''.'' (strip name1)
      in if name2 = [] then ''unknown'' else name2)"

section \<open>The world outside the scripts\<close>

text \<open>
  A file the scripts open is missing, unreadable as JSON, or holds a JSON document. A GET
  either raises (connection error, timeout, or \<^verbatim>\<open>raise_for_status\<close> on a status that is
  not 2xx), or answers a body that \<^verbatim>\<open>response.json()\<close> rejects, or answers JSON. The
  fixed headers and the 15 second timeout are part of how the answer comes about, not of what
  the scripts do with it. Upstream is a function of the URL: the same URL gets the same answer.
\<close>

datatype file_state = NoFile | BadFile | JsonFile json

datatype response = ReqError | NotJson | Json json

record env =
  project_root :: string
  http_get :: "string \<Rightarrow> response"
  py_str :: "json \<Rightarrow> string"
  writable :: "string \<Rightarrow> bool"
  can_mkdir :: "string \<Rightarrow> bool"

type_synonym files = "string \<Rightarrow> file_state"

text \<open>\<^verbatim>\<open>os.path.join(a, b)\<close> on a POSIX system.\<close>

definition os_path_join :: "string \<Rightarrow> string \<Rightarrow> string" where
  "os_path_join a b =
     (if starts_with ''/'' b then b
      else if a = [] \<or> last a = CHR ''/'' then a @ b
      else a @ ''/'' @ b)"

text \<open>\<^verbatim>\<open>x.copy()\<close>: lists and dicts have the method.\<close>

fun py_copy :: "json \<Rightarrow> py_error + json" where
  "py_copy (JArr xs) = Inr (JArr xs)"
| "py_copy (JObj d) = Inr (JObj d)"
| "py_copy _ = Inl AttributeError"

text \<open>\<^verbatim>\<open>acc.extend(vs)\<close>: only a list has the method; then \<open>vs\<close> is iterated.\<close>

fun py_extend :: "json \<Rightarrow> json \<Rightarrow> py_error + json" where
  "py_extend (JArr xs) vs = (case py_iter vs of Inl err \<Rightarrow> Inl err | Inr ys \<Rightarrow> Inr (JArr (xs @ ys)))"
| "py_extend _ vs = Inl AttributeError"

text \<open>\<^verbatim>\<open>x <= k\<close> for an integer \<open>k\<close>: numbers compare (a bool is 0 or 1), the rest raises.\<close>

fun py_le_int :: "json \<Rightarrow> int \<Rightarrow> py_error + bool" where
  "py_le_int (JInt n) k = Inr (n \<le> k)"
| "py_le_int (JBool b) k = Inr ((if b then 1 else 0) \<le> k)"
| "py_le_int (JFloat r) k = Inr (r \<le> of_int k)"
| "py_le_int _ k = Inl TypeError"

text \<open>\<^verbatim>\<open>range(2, x + 1)\<close>: only an integer (or a bool) can be a bound.\<close>

fun py_range_from_2 :: "json \<Rightarrow> py_error + int list" where
  "py_range_from_2 (JInt n) = Inr [2..n]"
| "py_range_from_2 (JBool b) = Inr [2..(if b then 1 else 0)]"
| "py_range_from_2 _ = Inl TypeError"

section \<open>Config Fetcher (bin/parse\_api.py)\<close>

text \<open>
  \<^verbatim>\<open>parse_tvbox_api(api_url)\<close>. The two \<^verbatim>\<open>len(config.get(..., []))\<close> for the printed
  counts run inside the outer \<^verbatim>\<open>try\<close>, whose \<^verbatim>\<open>except Exception\<close> answers None.
\<close>

definition parse_tvbox_api :: "env \<Rightarrow> string \<Rightarrow> json" where
  "parse_tvbox_api e api_url =
     (case http_get e api_url of
        ReqError \<Rightarrow> JNull
      | NotJson \<Rightarrow> JNull
      | Json config \<Rightarrow>
          (case config of
             JObj d \<Rightarrow>
               (case py_len (dict_get d ''sites'' (JArr [])) of
                  Inl err \<Rightarrow> JNull
                | Inr sites_count \<Rightarrow>
                    (case py_len (dict_get d ''lives'' (JArr [])) of
                       Inl err \<Rightarrow> JNull
                     | Inr lives_count \<Rightarrow> config))
           | JArr xs \<Rightarrow> config
           | _ \<Rightarrow> JNull))"

section \<open>Page Aggregator (bin/fetch\_all\_pages.py)\<close>

text \<open>
  The loop of \<^verbatim>\<open>get_site_api_url\<close>: the first entry whose \<^verbatim>\<open>name\<close> equals the
  wanted string gives its \<^verbatim>\<open>api\<close> (default the empty string); no entry gives None.
  An entry that is not a dict raises at \<^verbatim>\<open>site.get\<close>.
\<close>

fun find_site :: "json list \<Rightarrow> string \<Rightarrow> py_error + json" where
  "find_site [] site_name = Inr JNull"
| "find_site (site # rest) site_name =
     (case py_get site ''name'' JNull of
        Inl err \<Rightarrow> Inl err
      | Inr n \<Rightarrow>
          if n = JStr site_name then py_get site ''api'' (JStr [])
          else find_site rest site_name)"

text \<open>Everything after opening the root config is inside one \<^verbatim>\<open>try\<close> that answers None.\<close>

definition lookup_sites :: "env \<Rightarrow> files \<Rightarrow> string \<Rightarrow> json" where
  "lookup_sites e fs site_name =
     (case fs (os_path_join (project_root e) ''tvbox_config.json'') of
        JsonFile config \<Rightarrow>
          (case py_get config ''sites'' (JArr []) of
             Inl err \<Rightarrow> JNull
           | Inr sites \<Rightarrow>
               (case py_iter sites of
                  Inl err \<Rightarrow> JNull
                | Inr entries \<Rightarrow>
                    (case find_site entries site_name of Inl err \<Rightarrow> JNull | Inr api \<Rightarrow> api)))
      | _ \<Rightarrow> JNull)"

text \<open>\<^verbatim>\<open>get_site_api_url(site_name)\<close> of fetch\_all\_pages.py.\<close>

definition get_site_api_url :: "env \<Rightarrow> files \<Rightarrow> string \<Rightarrow> json" where
  "get_site_api_url e fs site_name = lookup_sites e fs site_name"

definition page_url :: "string \<Rightarrow> int \<Rightarrow> string" where
  "page_url api_url page =
     (if CHR ''?'' \<in> set api_url then api_url @ ''&pg='' @ str_int page
      else api_url @ ''?pg='' @ str_int page)"

text \<open>
  \<^verbatim>\<open>fetch_page(api_url, page)\<close>, with the URLs it requested. \<^verbatim>\<open>'?' in api_url\<close>
  is outside the \<^verbatim>\<open>try\<close> and raises on a number. A list or dict passes that test, but
  its text is no URL with a scheme: \<^verbatim>\<open>requests.get\<close> raises before anything is sent.
\<close>

definition fetch_page :: "env \<Rightarrow> json \<Rightarrow> int \<Rightarrow> (py_error + json) \<times> string list" where
  "fetch_page e api_url page =
     (case api_url of
        JStr u \<Rightarrow>
          (Inr (case http_get e (page_url u page) of Json data \<Rightarrow> data | _ \<Rightarrow> JNull),
           [page_url u page])
      | JArr xs \<Rightarrow> (Inr JNull, [])
      | JObj d \<Rightarrow> (Inr JNull, [])
      | _ \<Rightarrow> (Inl TypeError, []))"

text \<open>The loop \<^verbatim>\<open>for page in range(2, pagecount + 1)\<close> over the remaining pages.\<close>

fun fetch_rest :: "env \<Rightarrow> json \<Rightarrow> json \<Rightarrow> int list \<Rightarrow> (py_error + json) \<times> string list" where
  "fetch_rest e api_url all_videos [] = (Inr all_videos, [])"
| "fetch_rest e api_url all_videos (page # pages) =
     (case fetch_page e api_url page of
        (Inl err, t) \<Rightarrow> (Inl err, t)
      | (Inr page_data, t) \<Rightarrow>
          (case (if truthy page_data then
                   (case py_get page_data ''list'' (JArr []) of
                      Inl err \<Rightarrow> Inl err
                    | Inr page_videos \<Rightarrow>
                        if truthy page_videos then py_extend all_videos page_videos
                        else Inr all_videos)
                 else Inr all_videos) of
             Inl err \<Rightarrow> (Inl err, t)
           | Inr all_videos' \<Rightarrow>
               (case fetch_rest e api_url all_videos' pages of (r, t') \<Rightarrow> (r, t @ t'))))"

text \<open>
  \<^verbatim>\<open>fetch_all_pages(site_file)\<close>: the document it returns (None is \<open>JNull\<close>) or the
  exception that leaves it, and the URLs requested. The \<^verbatim>\<open>len\<close> is the one of the
  printed "videos on the first page" line.
\<close>

definition fetch_all_pages :: "env \<Rightarrow> files \<Rightarrow> string \<Rightarrow> (py_error + json) \<times> string list" where
  "fetch_all_pages e fs site_file =
     (case fs (os_path_join (os_path_join (project_root e) ''sites'') site_file) of
        NoFile \<Rightarrow> (Inr JNull, [])
      | BadFile \<Rightarrow> (Inr JNull, [])
      | JsonFile first_page_data \<Rightarrow>
          let api_url = get_site_api_url e fs (replace ''.json'' [] site_file) in
          if \<not> truthy api_url then (Inr JNull, [])
          else
            (case first_page_data of
               JObj fp \<Rightarrow>
                 let pagecount = dict_get fp ''pagecount'' (JInt 1) in
                 (case py_len (dict_get fp ''list'' (JArr [])) of
                    Inl err \<Rightarrow> (Inl err, [])
                  | Inr n1 \<Rightarrow>
                      (case py_le_int pagecount 1 of
                         Inl err \<Rightarrow> (Inl err, [])
                       | Inr True \<Rightarrow> (Inr first_page_data, [])
                       | Inr False \<Rightarrow>
                           (case py_copy (dict_get fp ''list'' (JArr [])) of
                              Inl err \<Rightarrow> (Inl err, [])
                            | Inr all_videos \<Rightarrow>
                                (case py_range_from_2 pagecount of
                                   Inl err \<Rightarrow> (Inl err, [])
                                 | Inr pages \<Rightarrow>
                                     (case fetch_rest e api_url all_videos pages of
                                        (Inl err, t) \<Rightarrow> (Inl err, t)
                                      | (Inr videos, t) \<Rightarrow>
                                          (case py_len videos of
                                             Inl err \<Rightarrow> (Inl err, t)
                                           | Inr n \<Rightarrow>
                                               (Inr (JObj (AList.update ''total'' (JInt (int n))
                                                       (AList.update ''page'' (JInt 1)
                                                         (AList.update ''list'' videos fp)))),
                                                t)))))))
             | _ \<Rightarrow> (Inl AttributeError, [])))"

section \<open>Site Enumerator (parse\_sites.py)\<close>

text \<open>
  \<^verbatim>\<open>fetch_site_config(api_url, site_name)\<close>: the whole body is inside a \<^verbatim>\<open>try\<close> whose
  handlers answer None. An \<open>api_url\<close> that is not a string is refused by
  \<^verbatim>\<open>requests.get\<close> before anything is sent.
\<close>

definition fetch_site_config :: "env \<Rightarrow> json \<Rightarrow> json \<times> string list" where
  "fetch_site_config e api_url =
     (case api_url of
        JStr u \<Rightarrow> ((case http_get e u of Json config \<Rightarrow> config | _ \<Rightarrow> JNull), [u])
      | _ \<Rightarrow> (JNull, []))"

text \<open>
  \<^verbatim>\<open>save_site_config(config, filename, output_dir)\<close>. \<^verbatim>\<open>os.makedirs\<close> and
  \<^verbatim>\<open>sanitize_filename\<close> are outside the \<^verbatim>\<open>try\<close>: a directory that cannot be made and
  a name without \<^verbatim>\<open>replace\<close> (anything but a string) raise. A file that cannot be opened
  for writing gives False and is left as it was.
\<close>

definition save_site_config ::
  "env \<Rightarrow> files \<Rightarrow> json \<Rightarrow> json \<Rightarrow> string \<Rightarrow> (py_error + bool) \<times> files" where
  "save_site_config e fs config filename output_dir =
     (if \<not> can_mkdir e output_dir then (Inl OSError, fs)
      else
        (case filename of
           JStr name \<Rightarrow>
             let filepath = os_path_join output_dir (sanitize_filename name @ ''.json'') in
             if writable e filepath then (Inr True, fs(filepath := JsonFile config))
             else (Inr False, fs)
         | _ \<Rightarrow> (Inl AttributeError, fs)))"

text \<open>
  The loop \<^verbatim>\<open>for i, site in enumerate(sites, 1)\<close> with its two counters; \<open>i\<close> is the
  1-based index, used for the default name \<^verbatim>\<open>site_<i>\<close>.
\<close>

fun sites_loop ::
  "env \<Rightarrow> string \<Rightarrow> files \<Rightarrow> nat \<Rightarrow> nat \<Rightarrow> nat \<Rightarrow> json list
     \<Rightarrow> (py_error + nat \<times> nat) \<times> files \<times> string list" where
  "sites_loop e output_dir fs i success_count fail_count [] =
     (Inr (success_count, fail_count), fs, [])"
| "sites_loop e output_dir fs i success_count fail_count (site # rest) =
     (case site of
        JObj d \<Rightarrow>
          let site_name = dict_get d ''name'' (JStr (''site_'' @ str_nat i));
              api_url = dict_get d ''api'' (JStr [])
          in
          if \<not> truthy api_url then
            sites_loop e output_dir fs (i + 1) success_count (fail_count + 1) rest
          else
            (case fetch_site_config e api_url of
               (site_config, t) \<Rightarrow>
                 if truthy site_config then
                   (case save_site_config e fs site_config site_name output_dir of
                      (Inl err, fs') \<Rightarrow> (Inl err, fs', t)
                    | (Inr saved, fs') \<Rightarrow>
                        (case (if saved
                               then sites_loop e output_dir fs' (i + 1) (success_count + 1) fail_count rest
                               else sites_loop e output_dir fs' (i + 1) success_count (fail_count + 1) rest) of
                           (r, fs'', t') \<Rightarrow> (r, fs'', t @ t')))
                 else
                   (case sites_loop e output_dir fs (i + 1) success_count (fail_count + 1) rest of
                      (r, fs'', t') \<Rightarrow> (r, fs'', t @ t')))
      | _ \<Rightarrow> sites_loop e output_dir fs (i + 1) success_count (fail_count + 1) rest)"

text \<open>
  \<^verbatim>\<open>parse_all_sites(config_file, output_dir)\<close>: the triple (success, fail, total) or
  the exception that leaves it, the files afterwards, the URLs requested.
  \<^verbatim>\<open>config.get\<close> and the \<^verbatim>\<open>len(sites)\<close> of the first printed line are outside any
  \<^verbatim>\<open>try\<close>.
\<close>

definition parse_all_sites ::
  "env \<Rightarrow> files \<Rightarrow> string \<Rightarrow> string
     \<Rightarrow> (py_error + nat \<times> nat \<times> nat) \<times> files \<times> string list" where
  "parse_all_sites e fs config_file output_dir =
     (case fs config_file of
        NoFile \<Rightarrow> (Inr (0, 0, 0), fs, [])
      | BadFile \<Rightarrow> (Inr (0, 0, 0), fs, [])
      | JsonFile config \<Rightarrow>
          (case py_get config ''sites'' (JArr []) of
             Inl err \<Rightarrow> (Inl err, fs, [])
           | Inr sites \<Rightarrow>
               if \<not> truthy sites then (Inr (0, 0, 0), fs, [])
               else
                 (case py_len sites of
                    Inl err \<Rightarrow> (Inl err, fs, [])
                  | Inr n_total \<Rightarrow>
                      (case py_iter sites of
                         Inl err \<Rightarrow> (Inl err, fs, [])
                       | Inr entries \<Rightarrow>
                           (case sites_loop e output_dir fs 1 0 0 entries of
                              (Inl err, fs', t) \<Rightarrow> (Inl err, fs', t)
                            | (Inr (success_count, fail_count), fs', t) \<Rightarrow>
                                (Inr (success_count, fail_count, n_total), fs', t))))))"

section \<open>Play-URL Backfill (bin/fetch\_play\_urls.py)\<close>

text \<open>
  \<^verbatim>\<open>get_site_api_url(site_file)\<close> of fetch\_play\_urls.py: the same lookup, with the
  name computed from the file name inside the function.
\<close>

definition get_site_api_url_of_file :: "env \<Rightarrow> files \<Rightarrow> string \<Rightarrow> json" where
  "get_site_api_url_of_file e fs site_file = lookup_sites e fs (replace ''.json'' [] site_file)"

text \<open>
  What an f-string writes for a value: a string as it is, an integer in decimal, anything
  else as Python's \<^verbatim>\<open>str\<close> prints it (a parameter of the environment).
\<close>

definition format_value :: "env \<Rightarrow> json \<Rightarrow> string" where
  "format_value e v = (case v of JStr s \<Rightarrow> s | JInt i \<Rightarrow> str_int i | _ \<Rightarrow> py_str e v)"

definition detail_url :: "env \<Rightarrow> string \<Rightarrow> json \<Rightarrow> string" where
  "detail_url e api_url vod_id =
     (if CHR ''?'' \<in> set api_url then api_url @ ''&ac=detail&ids='' @ format_value e vod_id
      else api_url @ ''?ac=detail&ids='' @ format_value e vod_id)"

text \<open>
  \<^verbatim>\<open>data['list'][0]\<close> behind its guard \<^verbatim>\<open>isinstance(data, dict) and 'list' in data and
  data['list']\<close>. Indexing a dict or a number with 0 raises inside the \<^verbatim>\<open>try\<close>, which
  answers None.
\<close>

definition first_detail :: "json \<Rightarrow> json" where
  "first_detail data =
     (case data of
        JObj d \<Rightarrow>
          (case map_of d ''list'' of
             None \<Rightarrow> JNull
           | Some l \<Rightarrow>
               if truthy l then
                 (case l of
                    JArr xs \<Rightarrow> hd xs
                  | JStr s \<Rightarrow> JStr [hd s]
                  | _ \<Rightarrow> JNull)
               else JNull)
      | _ \<Rightarrow> JNull)"

text \<open>\<^verbatim>\<open>fetch_vod_detail(api_url, vod_id)\<close>, with the URLs it requested.\<close>

definition fetch_vod_detail :: "env \<Rightarrow> json \<Rightarrow> json \<Rightarrow> (py_error + json) \<times> string list" where
  "fetch_vod_detail e api_url vod_id =
     (case api_url of
        JStr u \<Rightarrow>
          (Inr (case http_get e (detail_url e u vod_id) of
                  Json data \<Rightarrow> first_detail data
                | _ \<Rightarrow> JNull),
           [detail_url e u vod_id])
      | JArr xs \<Rightarrow> (Inr JNull, [])
      | JObj d \<Rightarrow> (Inr JNull, [])
      | _ \<Rightarrow> (Inl TypeError, []))"

text \<open>\<^verbatim>\<open>k in x\<close> for a string \<open>k\<close>: a key of a dict, a substring of a string, an element of a list.\<close>

fun py_in :: "string \<Rightarrow> json \<Rightarrow> py_error + bool" where
  "py_in k (JObj d) = Inr (k \<in> set (map fst d))"
| "py_in k (JStr s) = Inr (str_contains k s)"
| "py_in k (JArr xs) = Inr (JStr k \<in> set xs)"
| "py_in k _ = Inl TypeError"

text \<open>\<^verbatim>\<open>x[k]\<close> for a string \<open>k\<close> known to be \<^verbatim>\<open>in x\<close>: only a dict can be indexed by it.\<close>

fun py_getitem :: "json \<Rightarrow> string \<Rightarrow> py_error + json" where
  "py_getitem (JObj d) k = Inr (dict_get d k JNull)"
| "py_getitem _ k = Inl TypeError"

definition and_then :: "'e + 'a \<Rightarrow> ('a \<Rightarrow> 'e + 'b) \<Rightarrow> 'e + 'b" where
  "and_then r f = (case r of Inl err \<Rightarrow> Inl err | Inr x \<Rightarrow> f x)"

text \<open>\<^verbatim>\<open>if k in detail: video[k] = detail[k]\<close>\<close>

definition copy_item :: "string \<Rightarrow> json \<Rightarrow> (string \<times> json) list \<Rightarrow> py_error + (string \<times> json) list" where
  "copy_item k detail video =
     and_then (py_in k detail) (\<lambda>present.
       if present then and_then (py_getitem detail k) (\<lambda>v. Inr (AList.update k v video))
       else Inr video)"

text \<open>\<^verbatim>\<open>if k in detail and detail.get(k): video[k] = detail[k]\<close>\<close>

definition copy_nonempty :: "string \<Rightarrow> json \<Rightarrow> (string \<times> json) list \<Rightarrow> py_error + (string \<times> json) list" where
  "copy_nonempty k detail video =
     and_then (py_in k detail) (\<lambda>present.
       if present then
         and_then (py_get detail k JNull) (\<lambda>g.
           if truthy g then and_then (py_getitem detail k) (\<lambda>v. Inr (AList.update k v video))
           else Inr video)
       else Inr video)"

text \<open>\<^verbatim>\<open>if k in detail: video[k] = detail.get(k, '')\<close>\<close>

definition copy_get :: "string \<Rightarrow> json \<Rightarrow> (string \<times> json) list \<Rightarrow> py_error + (string \<times> json) list" where
  "copy_get k detail video =
     and_then (py_in k detail) (\<lambda>present.
       if present then and_then (py_get detail k (JStr [])) (\<lambda>v. Inr (AList.update k v video))
       else Inr video)"

text \<open>The six assignments under \<^verbatim>\<open>if detail:\<close>, in the order of the source.\<close>

definition merge_detail :: "json \<Rightarrow> (string \<times> json) list \<Rightarrow> py_error + (string \<times> json) list" where
  "merge_detail detail video =
     and_then (copy_item ''vod_play_from'' detail video) (\<lambda>v1.
     and_then (copy_item ''vod_play_url'' detail v1) (\<lambda>v2.
     and_then (copy_nonempty ''vod_content'' detail v2) (\<lambda>v3.
     and_then (copy_get ''vod_actor'' detail v3) (\<lambda>v4.
     and_then (copy_get ''vod_director'' detail v4) (\<lambda>v5.
     copy_get ''vod_score'' detail v5)))))"

text \<open>\<^verbatim>\<open>x[:30]\<close>, in the printed progress line: strings and lists can be sliced.\<close>

fun py_sliceable :: "json \<Rightarrow> bool" where
  "py_sliceable (JStr s) = True"
| "py_sliceable (JArr xs) = True"
| "py_sliceable _ = False"

text \<open>
  One round of the loop over the videos: the record afterwards, the two counters, the URLs
  requested. The default of \<^verbatim>\<open>vod_name\<close> is a two-character string that is only printed.
\<close>

definition process_video ::
  "env \<Rightarrow> json \<Rightarrow> json \<Rightarrow> nat \<Rightarrow> nat \<Rightarrow> (py_error + json \<times> nat \<times> nat) \<times> string list" where
  "process_video e api_url video success_count fail_count =
     (case video of
        JObj v \<Rightarrow>
          let vod_id = dict_get v ''vod_id'' JNull;
              vod_name = dict_get v ''vod_name'' (JStr ''??'')
          in
          if \<not> truthy vod_id then (Inr (video, success_count, fail_count), [])
          else if ''vod_play_url'' \<in> set (map fst v) \<and> truthy (dict_get v ''vod_play_url'' JNull) then
            (if py_sliceable vod_name then (Inr (video, success_count + 1, fail_count), [])
             else (Inl TypeError, []))
          else if \<not> py_sliceable vod_name then (Inl TypeError, [])
          else
            (case fetch_vod_detail e api_url vod_id of
               (Inl err, t) \<Rightarrow> (Inl err, t)
             | (Inr detail, t) \<Rightarrow>
                 if truthy detail then
                   (case merge_detail detail v of
                      Inl err \<Rightarrow> (Inl err, t)
                    | Inr v' \<Rightarrow> (Inr (JObj v', success_count + 1, fail_count), t))
                 else (Inr (video, success_count, fail_count + 1), t))
      | _ \<Rightarrow> (Inr (video, success_count, fail_count), []))"

text \<open>The loop \<^verbatim>\<open>for i, video in enumerate(video_list, 1)\<close>.\<close>

fun videos_loop ::
  "env \<Rightarrow> json \<Rightarrow> nat \<Rightarrow> nat \<Rightarrow> json list
     \<Rightarrow> (py_error + json list \<times> nat \<times> nat) \<times> string list" where
  "videos_loop e api_url success_count fail_count [] = (Inr ([], success_count, fail_count), [])"
| "videos_loop e api_url success_count fail_count (video # rest) =
     (case process_video e api_url video success_count fail_count of
        (Inl err, t) \<Rightarrow> (Inl err, t)
      | (Inr (video', s', f'), t) \<Rightarrow>
          (case videos_loop e api_url s' f' rest of
             (Inl err, t') \<Rightarrow> (Inl err, t @ t')
           | (Inr (rest', s'', f''), t') \<Rightarrow> (Inr (video' # rest', s'', f''), t @ t')))"

text \<open>
  \<^verbatim>\<open>update_site_with_play_urls(site_file, site_dir)\<close>: the triple or the exception,
  the files afterwards, the URLs requested. The records are changed in place, so the
  document written back is the one read with the changed records in its \<^verbatim>\<open>list\<close>; when
  \<^verbatim>\<open>list\<close> is a string or a dict the loop runs over characters or keys and changes nothing.
\<close>

definition update_site_with_play_urls ::
  "env \<Rightarrow> files \<Rightarrow> string \<Rightarrow> string
     \<Rightarrow> (py_error + nat \<times> nat \<times> nat) \<times> files \<times> string list" where
  "update_site_with_play_urls e fs site_file site_dir =
     (let dir = (if starts_with ''/'' site_dir then site_dir
                 else os_path_join (project_root e) site_dir);
          filepath = os_path_join dir site_file
      in
      case fs filepath of
        NoFile \<Rightarrow> (Inr (0, 0, 0), fs, [])
      | BadFile \<Rightarrow> (Inr (0, 0, 0), fs, [])
      | JsonFile site_data \<Rightarrow>
          let api_url = get_site_api_url_of_file e fs site_file in
          if \<not> truthy api_url then (Inr (0, 0, 0), fs, [])
          else
            (case py_get site_data ''list'' (JArr []) of
               Inl err \<Rightarrow> (Inl err, fs, [])
             | Inr video_list \<Rightarrow>
                 if \<not> truthy video_list then (Inr (0, 0, 0), fs, [])
                 else
                   (case py_len video_list of
                      Inl err \<Rightarrow> (Inl err, fs, [])
                    | Inr n_total \<Rightarrow>
                        (case py_iter video_list of
                           Inl err \<Rightarrow> (Inl err, fs, [])
                         | Inr videos \<Rightarrow>
                             (case videos_loop e api_url 0 0 videos of
                                (Inl err, t) \<Rightarrow> (Inl err, fs, t)
                              | (Inr (videos', success_count, fail_count), t) \<Rightarrow>
                                  let site_data' =
                                    (case (site_data, video_list) of
                                       (JObj sd, JArr xs) \<Rightarrow> JObj (AList.update ''list'' (JArr videos') sd)
                                     | _ \<Rightarrow> site_data)
                                  in
                                  if writable e filepath then
                                    (Inr (success_count, fail_count, n_total),
                                     fs(filepath := JsonFile site_data'), t)
                                  else (Inr (0, 0, 0), fs, t))))))"

section \<open>Vocabulary of the properties\<close>

text \<open>
  A page document as the data model has it: a dict whose \<^verbatim>\<open>list\<close>, when present, is a
  list. \<open>doc_list\<close> is that list, empty when the key is absent.
\<close>

definition page_doc :: "json \<Rightarrow> bool" where
  "page_doc doc =
     (case doc of
        JObj d \<Rightarrow> (case map_of d ''list'' of None \<Rightarrow> True | Some (JArr xs) \<Rightarrow> True | Some _ \<Rightarrow> False)
      | _ \<Rightarrow> False)"

definition doc_list :: "json \<Rightarrow> json list" where
  "doc_list doc =
     (case doc of
        JObj d \<Rightarrow> (case map_of d ''list'' of Some (JArr xs) \<Rightarrow> xs | _ \<Rightarrow> [])
      | _ \<Rightarrow> [])"

text \<open>The records upstream answers for page \<open>k\<close> of the endpoint \<open>u\<close>; none when the GET fails.\<close>

definition page_records :: "env \<Rightarrow> string \<Rightarrow> int \<Rightarrow> json list" where
  "page_records e u k = (case http_get e (page_url u k) of Json doc \<Rightarrow> doc_list doc | _ \<Rightarrow> [])"

text \<open>The GET for page \<open>k\<close> fails, or answers a page document, or answers an empty value.\<close>

definition page_answer_ok :: "env \<Rightarrow> string \<Rightarrow> int \<Rightarrow> bool" where
  "page_answer_ok e u k =
     (case http_get e (page_url u k) of Json doc \<Rightarrow> page_doc doc \<or> \<not> truthy doc | _ \<Rightarrow> True)"

text \<open>
  A site entry whose \<^verbatim>\<open>name\<close>, when it has one, is a string (the data model's endpoint
  descriptor); anything that is not a dict passes, since its name is never read.
\<close>

definition entry_name_ok :: "json \<Rightarrow> bool" where
  "entry_name_ok site =
     (case site of
        JObj d \<Rightarrow> (case map_of d ''name'' of None \<Rightarrow> True | Some (JStr n) \<Rightarrow> True | Some _ \<Rightarrow> False)
      | _ \<Rightarrow> True)"

text \<open>The six keys the backfill copies, in the order of the source.\<close>

definition merged_keys :: "string list" where
  "merged_keys = [''vod_play_from'', ''vod_play_url'', ''vod_content'', ''vod_actor'',
                  ''vod_director'', ''vod_score'']"

text \<open>
  What the merge writes under a key for a detail dict \<open>d\<close>: the detail's value when it has
  the key, except that an empty \<^verbatim>\<open>vod_content\<close> is not written.
\<close>

definition detail_value :: "(string \<times> json) list \<Rightarrow> string \<Rightarrow> json option" where
  "detail_value d k =
     (case map_of d k of
        None \<Rightarrow> None
      | Some x \<Rightarrow> if k = ''vod_content'' \<and> \<not> truthy x then None else Some x)"

definition put_if :: "json option \<Rightarrow> string \<Rightarrow> (string \<times> json) list \<Rightarrow> (string \<times> json) list" where
  "put_if x k v = (case x of None \<Rightarrow> v | Some y \<Rightarrow> AList.update k y v)"

text \<open>A record that carries a non-empty playback URL, and a record the backfill fetches.\<close>

definition has_play_url :: "json \<Rightarrow> bool" where
  "has_play_url video =
     (case video of
        JObj v \<Rightarrow> ''vod_play_url'' \<in> set (map fst v) \<and> truthy (dict_get v ''vod_play_url'' JNull)
      | _ \<Rightarrow> False)"

definition needs_fetch :: "json \<Rightarrow> bool" where
  "needs_fetch video =
     (case video of
        JObj v \<Rightarrow> truthy (dict_get v ''vod_id'' JNull) \<and> \<not> has_play_url video
      | _ \<Rightarrow> False)"

text \<open>The two paths the backfill opens.\<close>

definition root_config_path :: "env \<Rightarrow> string" where
  "root_config_path e = os_path_join (project_root e) ''tvbox_config.json''"

definition site_file_path :: "env \<Rightarrow> string \<Rightarrow> string \<Rightarrow> string" where
  "site_file_path e site_dir site_file =
     os_path_join (if starts_with ''/'' site_dir then site_dir
                   else os_path_join (project_root e) site_dir) site_file"

text \<open>
  A small installation for the concrete runs: the project lives in \<^verbatim>\<open>/srv/tvbox\<close>, the root
  config knows one site \<^verbatim>\<open>demo\<close>, every file can be written.
\<close>

definition demo_env :: "(string \<Rightarrow> response) \<Rightarrow> env" where
  "demo_env upstream =
     \<lparr>project_root = ''/srv/tvbox'', http_get = upstream, py_str = (\<lambda>v. ''?''),
      writable = (\<lambda>p. True), can_mkdir = (\<lambda>p. True)\<rparr>"

definition demo_root :: "json" where
  "demo_root = JObj [(''sites'', JArr [JObj [(''name'', JStr ''demo''), (''api'', JStr ''http://h/api'')]]),
                     (''lives'', JArr [])]"

definition demo_files :: "string \<Rightarrow> json \<Rightarrow> files" where
  "demo_files site_file doc =
     (\<lambda>p. if p = ''/srv/tvbox/tvbox_config.json'' then JsonFile demo_root
          else if p = ''/srv/tvbox/sites/'' @ site_file then JsonFile doc
          else NoFile)"

section \<open>File names are safe\<close>

lemma replace_single: "replace [a] [b] s = map (\<lambda>c. if c = a then b else c) s"
proof (induction s)
  case Nil
  then show ?case by (simp add: replace.simps)
next
  case (Cons c cs)
  then show ?case by (subst replace.simps) auto
qed

















text \<open>The example of the specification: \<^verbatim>\<open>A/B:C\<close> becomes \<^verbatim>\<open>A_B_C\<close>.\<close>

lemma sanitize_example: "sanitize_filename ''A/B:C'' = ''A_B_C''"
  by (simp add: sanitize_filename_def invalid_chars_def replace_single strip_def strip_chars_def strip_with_def py_isspace_def)

section \<open>The aggregator merges the pages\<close>

text \<open>
  In this section the site file holds a dict \<open>fp\<close>, the root config resolves the file to a
  non-empty URL string \<open>u\<close>, and \<open>fp\<close> is a page document. The answers to the page
  requests are whatever \<open>http_get\<close> says for \<open>page_url u k\<close>.
\<close>

lemma demo_paths:
  "os_path_join (project_root (demo_env g)) ''tvbox_config.json'' = ''/srv/tvbox/tvbox_config.json''"
  "os_path_join (os_path_join (project_root (demo_env g)) ''sites'') ''demo.json'' = ''/srv/tvbox/sites/demo.json''"
  by (simp_all add: os_path_join_def demo_env_def)

lemma demo_api:
  "get_site_api_url (demo_env g) (demo_files ''demo.json'' doc) (replace ''.json'' [] ''demo.json'') = JStr ''http://h/api''"
  by (simp add: get_site_api_url_def lookup_sites_def demo_paths demo_files_def demo_root_def dict_get_def replace.simps)

lemma fetch_rest_typed:
  assumes "\<forall>k\<in>set pages. page_answer_ok e u k"
  shows "fetch_rest e (JStr u) (JArr acc) pages =
           (Inr (JArr (acc @ concat (map (page_records e u) pages))), map (page_url u) pages)"
  using assms
proof (induction pages arbitrary: acc)
  case Nil
  then show ?case by simp
next
  case (Cons k ks)
  from Cons.prems have ok: "page_answer_ok e u k" and rest: "\<forall>j\<in>set ks. page_answer_ok e u j"
    by simp_all
  have step: "\<And>acc'. fetch_rest e (JStr u) (JArr acc') ks =
      (Inr (JArr (acc' @ concat (map (page_records e u) ks))), map (page_url u) ks)"
    using Cons.IH rest by blast
  show ?case
  proof (cases "http_get e (page_url u k)")
    case ReqError
    then have pr: "page_records e u k = []" by (simp add: page_records_def)
    from ReqError show ?thesis by (simp add: fetch_page_def pr step)
  next
    case NotJson
    then have pr: "page_records e u k = []" by (simp add: page_records_def)
    from NotJson show ?thesis by (simp add: fetch_page_def pr step)
  next
    case (Json doc)
    show ?thesis
    proof (cases "truthy doc")
      case False
      then have "doc_list doc = []"
        by (cases doc) (simp_all add: doc_list_def)
      with Json have pr: "page_records e u k = []" by (simp add: page_records_def)
      from False Json show ?thesis by (simp add: fetch_page_def pr step)
    next
      case True
      with ok Json have pd: "page_doc doc" by (simp add: page_answer_ok_def)
      then obtain d where d: "doc = JObj d" by (cases doc) (simp_all add: page_doc_def)
      from pd d consider "map_of d ''list'' = None" | xs where "map_of d ''list'' = Some (JArr xs)"
        by (auto simp: page_doc_def split: option.splits json.splits)
      then show ?thesis
      proof cases
        case 1
        with Json d have pr: "page_records e u k = []"
          by (simp add: page_records_def doc_list_def)
        from 1 True Json d show ?thesis
          by (simp add: fetch_page_def pr dict_get_def step)
      next
        case 2
        with Json d have pr: "page_records e u k = xs"
          by (simp add: page_records_def doc_list_def)
        from 2 True Json d show ?thesis
          by (simp add: fetch_page_def pr dict_get_def step)
      qed
    qed
  qed
qed

lemma fetch_all_pages_merged:
  assumes f0: "fs (os_path_join (os_path_join (project_root e) ''sites'') site_file) = JsonFile (JObj fp)"
    and api: "get_site_api_url e fs (replace ''.json'' [] site_file) = JStr u" "u \<noteq> []"
    and pc: "map_of fp ''pagecount'' = Some (JInt N)" "1 < N"
    and fl: "page_doc (JObj fp)"
    and pages: "\<forall>k\<in>set [2..N]. page_answer_ok e u k"
  shows "fetch_all_pages e fs site_file =
           (Inr (JObj (AList.update ''total''
                         (JInt (int (length (doc_list (JObj fp) @ concat (map (page_records e u) [2..N])))))
                      (AList.update ''page'' (JInt 1)
                      (AList.update ''list''
                         (JArr (doc_list (JObj fp) @ concat (map (page_records e u) [2..N]))) fp)))),
            map (page_url u) [2..N])"
proof -
  from fl consider "map_of fp ''list'' = None" | xs where "map_of fp ''list'' = Some (JArr xs)"
    by (auto simp: page_doc_def split: option.splits json.splits)
  then show ?thesis
  proof cases
    case 1
    then show ?thesis using f0 api pc
      by (simp add: fetch_all_pages_def dict_get_def doc_list_def fetch_rest_typed [OF pages])
  next
    case 2
    then show ?thesis using f0 api pc
      by (simp add: fetch_all_pages_def dict_get_def doc_list_def fetch_rest_typed [OF pages])
  qed
qed

lemma concat_skip:
  assumes "f k = []"
  shows "concat (map f xs) = concat (map f (filter (\<lambda>j. j \<noteq> k) xs))"
  using assms by (induction xs) auto

lemma demo_page_url: "page_url ''http://h/api'' 2 = ''http://h/api?pg=2''"
  "page_url ''http://h/api'' 3 = ''http://h/api?pg=3''"
  by (simp_all add: page_url_def str_int_def str_nat.simps)

lemma demo_file:
  "demo_files ''demo.json'' doc
     (os_path_join (os_path_join (project_root (demo_env g)) ''sites'') ''demo.json'') = JsonFile doc"
  by (simp add: demo_paths demo_files_def)

text \<open>
  Claim C1. The first page says \<open>pagecount = N > 1\<close> and every request for the pages
  \<open>2..N\<close> answers a page document. Then the aggregator returns a document whose
  \<^verbatim>\<open>list\<close> is the first page's list followed by the list of page 2, of page 3, and so
  on up to page \<open>N\<close>, each in the order upstream gave; \<^verbatim>\<open>total\<close> is the length of
  that list and \<^verbatim>\<open>page\<close> is 1. The pages were requested once each, in ascending order.
\<close>

theorem fetch_all_pages_concatenates:
  assumes "fs (os_path_join (os_path_join (project_root e) ''sites'') site_file) = JsonFile (JObj fp)"
    and "get_site_api_url e fs (replace ''.json'' [] site_file) = JStr u" and "u \<noteq> []"
    and "map_of fp ''pagecount'' = Some (JInt N)" and "1 < N"
    and "page_doc (JObj fp)"
    and "\<forall>k\<in>{2..N}. \<exists>doc. http_get e (page_url u k) = Json doc \<and> page_doc doc"
  shows "\<exists>out. fetch_all_pages e fs site_file = (Inr (JObj out), map (page_url u) [2..N])
           \<and> map_of out ''list'' =
               Some (JArr (doc_list (JObj fp) @ concat (map (page_records e u) [2..N])))
           \<and> map_of out ''total'' =
               Some (JInt (int (length (doc_list (JObj fp) @ concat (map (page_records e u) [2..N])))))
           \<and> map_of out ''page'' = Some (JInt 1)"
proof -
  have "\<forall>k\<in>set [2..N]. page_answer_ok e u k"
    using assms(7) by (auto simp: page_answer_ok_def)
  from fetch_all_pages_merged [OF assms(1-6) this]
  show ?thesis by (simp add: update_conv')
qed

theorem fetch_all_pages_concatenates_witness:
  "\<exists>out. fetch_all_pages
            (demo_env (\<lambda>u. if u = ''http://h/api?pg=2''
                            then Json (JObj [(''list'', JArr [JObj [(''id'', JInt 2)]])])
                            else ReqError))
            (demo_files ''demo.json''
               (JObj [(''pagecount'', JInt 2), (''list'', JArr [JObj [(''id'', JInt 1)]])]))
            ''demo.json''
          = (Inr (JObj out), [''http://h/api?pg=2''])
        \<and> map_of out ''list'' = Some (JArr [JObj [(''id'', JInt 1)], JObj [(''id'', JInt 2)]])
        \<and> map_of out ''total'' = Some (JInt 2)
        \<and> map_of out ''page'' = Some (JInt 1)"
proof -
  let ?e = "demo_env (\<lambda>u. if u = ''http://h/api?pg=2''
                            then Json (JObj [(''list'', JArr [JObj [(''id'', JInt 2)]])])
                            else ReqError)"
  let ?fp = "[(''pagecount'', JInt 2), (''list'', JArr [JObj [(''id'', JInt 1)]])]"
  have pages: "\<forall>k\<in>{2..2}. \<exists>doc. http_get ?e (page_url ''http://h/api'' k) = Json doc \<and> page_doc doc"
    by (simp add: demo_env_def demo_page_url page_doc_def)
  have recs: "page_records ?e ''http://h/api'' 2 = [JObj [(''id'', JInt 2)]]"
    by (simp add: page_records_def demo_env_def demo_page_url doc_list_def)
  have "[2..2::int] = [2]" by (simp add: upto.simps)
  with fetch_all_pages_concatenates [of "demo_files ''demo.json'' (JObj ?fp)" ?e "''demo.json''" ?fp
        "''http://h/api''" 2, OF demo_file demo_api _ _ _ _ pages] recs
  show ?thesis by (simp add: page_doc_def doc_list_def demo_page_url)
qed

text \<open>
  Claim C2. The first page has no \<^verbatim>\<open>pagecount\<close>, or one that is at most 1 (an integer, a
  float, or a bool, which Python compares as 0 or 1). Then the aggregator returns the document
  it read, unchanged, and requests nothing.
\<close>

theorem fetch_all_pages_single_page:
  assumes "fs (os_path_join (os_path_join (project_root e) ''sites'') site_file) = JsonFile (JObj fp)"
    and "truthy (get_site_api_url e fs (replace ''.json'' [] site_file))"
    and "page_doc (JObj fp)"
    and "map_of fp ''pagecount'' = None
         \<or> (\<exists>n. map_of fp ''pagecount'' = Some (JInt n) \<and> n \<le> 1)
         \<or> (\<exists>r. map_of fp ''pagecount'' = Some (JFloat r) \<and> r \<le> 1)
         \<or> (\<exists>b. map_of fp ''pagecount'' = Some (JBool b))"
  shows "fetch_all_pages e fs site_file = (Inr (JObj fp), [])"
proof -
  from assms(3) consider "map_of fp ''list'' = None" | xs where "map_of fp ''list'' = Some (JArr xs)"
    by (auto simp: page_doc_def split: option.splits json.splits)
  then have len: "\<exists>n. py_len (dict_get fp ''list'' (JArr [])) = Inr n"
    by cases (simp_all add: dict_get_def)
  have le: "py_le_int (dict_get fp ''pagecount'' (JInt 1)) 1 = Inr True"
    using assms(4) by (auto simp: dict_get_def)
  from len obtain n where "py_len (dict_get fp ''list'' (JArr [])) = Inr n" ..
  then show ?thesis using assms(1,2) le
    by (simp add: fetch_all_pages_def)
qed

theorem fetch_all_pages_single_page_witness:
  "fetch_all_pages (demo_env (\<lambda>u. ReqError))
     (demo_files ''demo.json'' (JObj [(''pagecount'', JInt 1), (''list'', JArr [JObj [(''id'', JInt 1)]])]))
     ''demo.json''
   = (Inr (JObj [(''pagecount'', JInt 1), (''list'', JArr [JObj [(''id'', JInt 1)]])]), [])"
proof (rule fetch_all_pages_single_page)
  show "demo_files ''demo.json'' (JObj [(''pagecount'', JInt 1), (''list'', JArr [JObj [(''id'', JInt 1)]])])
          (os_path_join (os_path_join (project_root (demo_env (\<lambda>u. ReqError))) ''sites'') ''demo.json'')
        = JsonFile (JObj [(''pagecount'', JInt 1), (''list'', JArr [JObj [(''id'', JInt 1)]])])"
    by (simp add: demo_paths demo_files_def)
qed (simp_all add: demo_api page_doc_def)

text \<open>
  Claim C3. The first page says \<open>pagecount = N > 1\<close>, the request for one page \<open>k\<close>
  with \<open>1 < k \<le> N\<close> fails (no JSON comes back: a network error, a status that is not 2xx,
  or a body that is not JSON), and the other pages answer page documents. Then the aggregator
  still returns a document: its \<^verbatim>\<open>list\<close> is the first page's list followed by the lists
  of the pages other than \<open>k\<close> in ascending order, and nothing else.
\<close>

theorem fetch_all_pages_skips_failed_page:
  assumes "fs (os_path_join (os_path_join (project_root e) ''sites'') site_file) = JsonFile (JObj fp)"
    and "get_site_api_url e fs (replace ''.json'' [] site_file) = JStr u" and "u \<noteq> []"
    and "map_of fp ''pagecount'' = Some (JInt N)" and "1 < N"
    and "page_doc (JObj fp)"
    and "k \<in> {2..N}"
    and "\<forall>doc. http_get e (page_url u k) \<noteq> Json doc"
    and "\<forall>j\<in>{2..N} - {k}. \<exists>doc. http_get e (page_url u j) = Json doc \<and> page_doc doc"
  shows "\<exists>out. fetch_all_pages e fs site_file = (Inr (JObj out), map (page_url u) [2..N])
           \<and> map_of out ''list'' =
               Some (JArr (doc_list (JObj fp)
                           @ concat (map (page_records e u) (filter (\<lambda>j. j \<noteq> k) [2..N]))))
           \<and> map_of out ''total'' =
               Some (JInt (int (length (doc_list (JObj fp)
                           @ concat (map (page_records e u) (filter (\<lambda>j. j \<noteq> k) [2..N]))))))
           \<and> map_of out ''page'' = Some (JInt 1)"
proof -
  have failed: "page_answer_ok e u k" "page_records e u k = []"
    using assms(8) by (cases "http_get e (page_url u k)"; simp add: page_answer_ok_def page_records_def)+
  have "\<forall>j\<in>set [2..N]. page_answer_ok e u j"
  proof
    fix j assume "j \<in> set [2..N]"
    show "page_answer_ok e u j"
    proof (cases "j = k")
      case True
      then show ?thesis using failed by simp
    next
      case False
      with \<open>j \<in> set [2..N]\<close> have "j \<in> {2..N} - {k}" by simp
      with assms(9) obtain doc where "http_get e (page_url u j) = Json doc" "page_doc doc"
        by blast
      then show ?thesis by (simp add: page_answer_ok_def)
    qed
  qed
  from fetch_all_pages_merged [OF assms(1-6) this]
  show ?thesis
    by (simp add: update_conv' concat_skip [of "page_records e u" k, OF failed(2), symmetric])
qed

theorem fetch_all_pages_skips_failed_page_witness:
  "\<exists>out. fetch_all_pages
            (demo_env (\<lambda>u. if u = ''http://h/api?pg=3''
                            then Json (JObj [(''list'', JArr [JObj [(''id'', JInt 3)]])])
                            else ReqError))
            (demo_files ''demo.json''
               (JObj [(''pagecount'', JInt 3), (''list'', JArr [JObj [(''id'', JInt 1)]])]))
            ''demo.json''
          = (Inr (JObj out), [''http://h/api?pg=2'', ''http://h/api?pg=3''])
        \<and> map_of out ''list'' = Some (JArr [JObj [(''id'', JInt 1)], JObj [(''id'', JInt 3)]])
        \<and> map_of out ''total'' = Some (JInt 2)
        \<and> map_of out ''page'' = Some (JInt 1)"
proof -
  let ?e = "demo_env (\<lambda>u. if u = ''http://h/api?pg=3''
                            then Json (JObj [(''list'', JArr [JObj [(''id'', JInt 3)]])])
                            else ReqError)"
  let ?fp = "[(''pagecount'', JInt 3), (''list'', JArr [JObj [(''id'', JInt 1)]])]"
  have r: "[2..3::int] = [2, 3]" by (simp add: upto.simps)
  have k: "(2::int) \<in> {2..3}" by simp
  have fail: "\<forall>doc. http_get ?e (page_url ''http://h/api'' 2) \<noteq> Json doc"
    by (simp add: demo_env_def demo_page_url)
  have "{2..3::int} - {2} = {3}" by auto
  then have others: "\<forall>j\<in>{2..3} - {2}. \<exists>doc. http_get ?e (page_url ''http://h/api'' j) = Json doc \<and> page_doc doc"
    by (simp add: demo_env_def demo_page_url page_doc_def)
  have recs: "page_records ?e ''http://h/api'' 3 = [JObj [(''id'', JInt 3)]]"
    by (simp add: page_records_def demo_env_def demo_page_url doc_list_def)
  from fetch_all_pages_skips_failed_page [of "demo_files ''demo.json'' (JObj ?fp)" ?e "''demo.json''" ?fp
        "''http://h/api''" 3 2, OF demo_file demo_api _ _ _ _ k fail others] recs r
  show ?thesis by (simp add: page_doc_def doc_list_def demo_page_url)
qed

text \<open>
  Claim C4. The first page says \<open>pagecount > 1\<close>; each later page fails or answers a page
  document (or an empty value). Then every key of the returned document other than
  \<^verbatim>\<open>list\<close>, \<^verbatim>\<open>page\<close> and \<^verbatim>\<open>total\<close> has the value it had in the first page,
  and the keys of the result are the keys of the first page and those three.
\<close>

theorem fetch_all_pages_frame:
  assumes "fs (os_path_join (os_path_join (project_root e) ''sites'') site_file) = JsonFile (JObj fp)"
    and "get_site_api_url e fs (replace ''.json'' [] site_file) = JStr u" and "u \<noteq> []"
    and "map_of fp ''pagecount'' = Some (JInt N)" and "1 < N"
    and "page_doc (JObj fp)"
    and "\<forall>k\<in>{2..N}. page_answer_ok e u k"
  shows "\<exists>out t. fetch_all_pages e fs site_file = (Inr (JObj out), t)
           \<and> (\<forall>key. key \<notin> {''list'', ''page'', ''total''} \<longrightarrow> map_of out key = map_of fp key)
           \<and> fst ` set out = fst ` set fp \<union> {''list'', ''page'', ''total''}"
proof -
  have "\<forall>k\<in>set [2..N]. page_answer_ok e u k"
    using assms(7) by simp
  from fetch_all_pages_merged [OF assms(1-6) this]
  show ?thesis by (auto simp: update_conv' dom_update)
qed

theorem fetch_all_pages_frame_witness:
  "\<exists>out t. fetch_all_pages
            (demo_env (\<lambda>u. if u = ''http://h/api?pg=2''
                            then Json (JObj [(''code'', JInt 7), (''list'', JArr [JObj [(''id'', JInt 2)]])])
                            else ReqError))
            (demo_files ''demo.json''
               (JObj [(''code'', JInt 1), (''msg'', JStr ''ok''), (''page'', JStr ''1''),
                      (''pagecount'', JInt 2), (''total'', JInt 40),
                      (''list'', JArr [JObj [(''id'', JInt 1)]])]))
            ''demo.json''
          = (Inr (JObj out), t)
        \<and> map_of out ''code'' = Some (JInt 1)
        \<and> map_of out ''msg'' = Some (JStr ''ok'')
        \<and> map_of out ''pagecount'' = Some (JInt 2)"
proof -
  let ?e = "demo_env (\<lambda>u. if u = ''http://h/api?pg=2''
                            then Json (JObj [(''code'', JInt 7), (''list'', JArr [JObj [(''id'', JInt 2)]])])
                            else ReqError)"
  let ?fp = "[(''code'', JInt 1), (''msg'', JStr ''ok''), (''page'', JStr ''1''),
              (''pagecount'', JInt 2), (''total'', JInt 40),
              (''list'', JArr [JObj [(''id'', JInt 1)]])]"
  have pages: "\<forall>k\<in>{2..2}. page_answer_ok ?e ''http://h/api'' k"
    by (simp add: page_answer_ok_def demo_env_def demo_page_url page_doc_def)
  from fetch_all_pages_frame [of "demo_files ''demo.json'' (JObj ?fp)" ?e "''demo.json''" ?fp
        "''http://h/api''" 2, OF demo_file demo_api _ _ _ _ pages]
  obtain out t where
    r: "fetch_all_pages ?e (demo_files ''demo.json'' (JObj ?fp)) ''demo.json'' = (Inr (JObj out), t)"
    and fr: "\<forall>key. key \<notin> {''list'', ''page'', ''total''} \<longrightarrow> map_of out key = map_of ?fp key"
    by (auto simp: page_doc_def)
  from fr have "map_of out ''code'' = map_of ?fp ''code''" "map_of out ''msg'' = map_of ?fp ''msg''"
    "map_of out ''pagecount'' = map_of ?fp ''pagecount''" by simp_all
  with r show ?thesis by simp
qed

section \<open>What the Config Fetcher accepts\<close>

text \<open>
  A failed request and a body that is not JSON give None; a JSON array is returned as it is;
  a JSON value that is neither a dict nor a list gives None. A dict is returned when the two
  \<^verbatim>\<open>len\<close> calls of the printed counts go through, that is when \<^verbatim>\<open>sites\<close> and
  \<^verbatim>\<open>lives\<close> are absent or have a length.
\<close>

lemma parse_tvbox_api_failure:
  "http_get e api_url = ReqError \<or> http_get e api_url = NotJson \<Longrightarrow> parse_tvbox_api e api_url = JNull"
  by (auto simp: parse_tvbox_api_def)

lemma parse_tvbox_api_array:
  "http_get e api_url = Json (JArr xs) \<Longrightarrow> parse_tvbox_api e api_url = JArr xs"
  by (simp add: parse_tvbox_api_def)

lemma parse_tvbox_api_scalar:
  "http_get e api_url = Json v \<Longrightarrow> (\<forall>xs. v \<noteq> JArr xs) \<Longrightarrow> (\<forall>d. v \<noteq> JObj d)
     \<Longrightarrow> parse_tvbox_api e api_url = JNull"
  by (cases v) (simp_all add: parse_tvbox_api_def)

lemma parse_tvbox_api_object:
  assumes "http_get e api_url = Json (JObj d)"
  shows "parse_tvbox_api e api_url =
           (if (\<exists>n. py_len (dict_get d ''sites'' (JArr [])) = Inr n)
               \<and> (\<exists>n. py_len (dict_get d ''lives'' (JArr [])) = Inr n)
            then JObj d else JNull)"
  using assms by (auto simp: parse_tvbox_api_def split: sum.splits)

text \<open>
  Claim C9 says a payload that is a JSON object is accepted whatever its \<^verbatim>\<open>sites\<close> and
  \<^verbatim>\<open>lives\<close> hold. On a config whose \<^verbatim>\<open>lives\<close> is \<^verbatim>\<open>null\<close> the function answers
  None: \<^verbatim>\<open>len(None)\<close> raises inside the \<^verbatim>\<open>try\<close>, and the last handler swallows it.
\<close>

theorem parse_tvbox_api_rejects_null_lives:
  "parse_tvbox_api
     (demo_env (\<lambda>u. Json (JObj [(''sites'', JArr [JObj [(''name'', JStr ''demo''),
                                                       (''api'', JStr ''http://h/api'')]]),
                                (''lives'', JNull)])))
     ''http://h/config'' = JNull"
  by (simp add: parse_tvbox_api_def demo_env_def dict_get_def)

section \<open>Resolving the endpoint of a site file\<close>

text \<open>
  Given a name, the lookup is the exact match the specification describes: over a root
  config whose \<^verbatim>\<open>sites\<close> is a list of dicts it answers the \<^verbatim>\<open>api\<close> of the first
  entry with that \<^verbatim>\<open>name\<close> (the empty string when the entry has none), and None when
  no entry has the name.
\<close>

lemma find_site_exact:
  assumes "\<forall>site\<in>set entries. \<exists>d. site = JObj d"
  shows "find_site entries name =
           Inr (case filter (\<lambda>site. py_get site ''name'' JNull = Inr (JStr name)) entries of
                  [] \<Rightarrow> JNull
                | site # rest \<Rightarrow> (case site of JObj d \<Rightarrow> dict_get d ''api'' (JStr []) | _ \<Rightarrow> JNull))"
  using assms
proof (induction entries)
  case Nil
  then show ?case by simp
next
  case (Cons site entries)
  then obtain d where "site = JObj d" by auto
  with Cons show ?case by simp
qed

lemma lookup_sites_exact:
  assumes "fs (os_path_join (project_root e) ''tvbox_config.json'') = JsonFile (JObj cfg)"
    and "map_of cfg ''sites'' = Some (JArr entries)"
    and "\<forall>site\<in>set entries. \<exists>d. site = JObj d"
  shows "get_site_api_url e fs name =
           (case filter (\<lambda>site. py_get site ''name'' JNull = Inr (JStr name)) entries of
              [] \<Rightarrow> JNull
            | site # rest \<Rightarrow> (case site of JObj d \<Rightarrow> dict_get d ''api'' (JStr []) | _ \<Rightarrow> JNull))"
  using assms(1,2)
  by (simp add: get_site_api_url_def lookup_sites_def dict_get_def find_site_exact [OF assms(3)])

text \<open>
  Claim C8 says the name looked up is the file name without its trailing \<^verbatim>\<open>.json\<close>.
  The scripts compute it with \<^verbatim>\<open>site_file.replace('.json', '')\<close>, which removes every
  occurrence. The Site Enumerator saves the site named \<^verbatim>\<open>a.json\<close> as
  \<^verbatim>\<open>a.json.json\<close>; for that file the name looked up is \<^verbatim>\<open>a\<close>, no entry has it, and
  both tools report that the site has no API address, although the entry named by the base
  name \<^verbatim>\<open>a.json\<close> is there and a lookup of that name finds its URL.
\<close>

theorem get_site_api_url_inner_json:
  "replace ''.json'' [] ''a.json.json'' = ''a''
   \<and> get_site_api_url (demo_env (\<lambda>u. ReqError))
        (\<lambda>p. if p = ''/srv/tvbox/tvbox_config.json''
              then JsonFile (JObj [(''sites'', JArr [JObj [(''name'', JStr ''a.json''),
                                                             (''api'', JStr ''http://h/api'')]])])
              else NoFile)
        ''a.json'' = JStr ''http://h/api''
   \<and> get_site_api_url_of_file (demo_env (\<lambda>u. ReqError))
        (\<lambda>p. if p = ''/srv/tvbox/tvbox_config.json''
              then JsonFile (JObj [(''sites'', JArr [JObj [(''name'', JStr ''a.json''),
                                                             (''api'', JStr ''http://h/api'')]])])
              else NoFile)
        ''a.json.json'' = JNull
   \<and> fetch_all_pages (demo_env (\<lambda>u. ReqError))
        (\<lambda>p. if p = ''/srv/tvbox/tvbox_config.json''
              then JsonFile (JObj [(''sites'', JArr [JObj [(''name'', JStr ''a.json''),
                                                             (''api'', JStr ''http://h/api'')]])])
              else if p = ''/srv/tvbox/sites/a.json.json''
              then JsonFile (JObj [(''pagecount'', JInt 1), (''list'', JArr [])])
              else NoFile)
        ''a.json.json'' = (Inr JNull, [])"
proof -
  have r: "replace ''.json'' [] ''a.json.json'' = ''a''" by (simp add: replace.simps)
  show ?thesis
    unfolding fetch_all_pages_def get_site_api_url_of_file_def get_site_api_url_def r
    by (simp add: lookup_sites_def os_path_join_def demo_env_def dict_get_def)
qed

section \<open>The Site Enumerator counts every entry once\<close>

lemma sites_loop_counts:
  "sites_loop e out fs i s f entries = (Inr (s', f'), fs', t) \<Longrightarrow> s' + f' = s + f + length entries"
proof (induction entries arbitrary: fs i s f t)
  case Nil
  then show ?case by simp
next
  case (Cons site rest)
  show ?case
  proof (cases site)
    case (JObj d)
    show ?thesis
    proof (cases "truthy (dict_get d ''api'' (JStr []))")
      case False
      with Cons.prems JObj have "sites_loop e out fs (i + 1) s (f + 1) rest = (Inr (s', f'), fs', t)"
        by simp
      from Cons.IH [OF this] show ?thesis by simp
    next
      case True
      obtain cfg t0 where fc: "fetch_site_config e (dict_get d ''api'' (JStr [])) = (cfg, t0)"
        by (cases "fetch_site_config e (dict_get d ''api'' (JStr []))")
      show ?thesis
      proof (cases "truthy cfg")
        case False
        with Cons.prems JObj True fc obtain t' where
          "sites_loop e out fs (i + 1) s (f + 1) rest = (Inr (s', f'), fs', t')"
          by (auto split: prod.splits)
        from Cons.IH [OF this] show ?thesis by simp
      next
        case cfg: True
        obtain r fs0 where sv: "save_site_config e fs cfg (dict_get d ''name'' (JStr (''site_'' @ str_nat i))) out = (r, fs0)"
          by (cases "save_site_config e fs cfg (dict_get d ''name'' (JStr (''site_'' @ str_nat i))) out")
        show ?thesis
        proof (cases r)
          case (Inl err)
          with Cons.prems JObj True fc cfg sv show ?thesis by (simp add: Let_def)
        next
          case (Inr saved)
          show ?thesis
          proof (cases saved)
            case True
            with Cons.prems JObj \<open>truthy (dict_get d ''api'' (JStr []))\<close> fc cfg sv Inr obtain t' where
              "sites_loop e out fs0 (i + 1) (s + 1) f rest = (Inr (s', f'), fs', t')"
              by (auto simp: Let_def split: prod.splits)
            from Cons.IH [OF this] show ?thesis by simp
          next
            case False
            with Cons.prems JObj \<open>truthy (dict_get d ''api'' (JStr []))\<close> fc cfg sv Inr obtain t' where
              "sites_loop e out fs0 (i + 1) s (f + 1) rest = (Inr (s', f'), fs', t')"
              by (auto simp: Let_def split: prod.splits)
            from Cons.IH [OF this] show ?thesis by simp
          qed
        qed
      qed
    qed
  qed (use Cons.prems Cons.IH in \<open>fastforce\<close>)+
qed

lemma save_site_config_returns:
  "can_mkdir e out \<Longrightarrow> \<exists>saved fs'. save_site_config e fs cfg (JStr n) out = (Inr saved, fs')"
  by (auto simp: save_site_config_def Let_def)

lemma sites_loop_returns:
  assumes "can_mkdir e out" and "\<forall>site\<in>set entries. entry_name_ok site"
  shows "\<exists>s' f' fs' t. sites_loop e out fs i s f entries = (Inr (s', f'), fs', t)"
  using assms(2)
proof (induction entries arbitrary: fs i s f)
  case Nil
  then show ?case by simp
next
  case (Cons site rest)
  then have ih: "\<And>fs i s f. \<exists>s' f' fs' t. sites_loop e out fs i s f rest = (Inr (s', f'), fs', t)"
    by simp
  show ?case
  proof (cases site)
    case (JObj d)
    from Cons.prems JObj obtain n where nm: "dict_get d ''name'' (JStr (''site_'' @ str_nat i)) = JStr n"
      by (auto simp: entry_name_ok_def dict_get_def split: option.splits json.splits)
    show ?thesis
    proof (cases "truthy (dict_get d ''api'' (JStr []))")
      case False
      with JObj ih [of fs "i + 1" s "f + 1"] show ?thesis by simp
    next
      case True
      obtain cfg t0 where fc: "fetch_site_config e (dict_get d ''api'' (JStr [])) = (cfg, t0)"
        by (cases "fetch_site_config e (dict_get d ''api'' (JStr []))")
      show ?thesis
      proof (cases "truthy cfg")
        case False
        from ih [of fs "i + 1" s "f + 1"] obtain s' f' fs' t where
          "sites_loop e out fs (i + 1) s (f + 1) rest = (Inr (s', f'), fs', t)" by blast
        with JObj True fc False show ?thesis by simp
      next
        case cfg: True
        from save_site_config_returns [OF assms(1)] obtain saved fs0 where
          sv: "save_site_config e fs cfg (JStr n) out = (Inr saved, fs0)" by blast
        from ih [of fs0 "i + 1" "s + 1" f] obtain s1 f1 fs1 t1 where
          a: "sites_loop e out fs0 (i + 1) (s + 1) f rest = (Inr (s1, f1), fs1, t1)" by blast
        from ih [of fs0 "i + 1" s "f + 1"] obtain s2 f2 fs2 t2 where
          b: "sites_loop e out fs0 (i + 1) s (f + 1) rest = (Inr (s2, f2), fs2, t2)" by blast
        from JObj True fc cfg nm sv a b show ?thesis by (cases saved) simp_all
      qed
    qed
  qed (use ih in simp_all)
qed

text \<open>
  Claim C10. The root config is a dict whose \<^verbatim>\<open>sites\<close> is a non-empty list. Whenever
  \<open>parse_all_sites\<close> returns a triple (success, fail, total), success + fail = total and
  total is the number of entries: an entry that is not a dict, one without an API URL, one
  whose fetch fails and one whose file cannot be written each count as one failure, a saved
  one as one success. And it does return a triple when the output directory can be made and
  the names of the entries are strings (a name that is not a string has no \<^verbatim>\<open>replace\<close>,
  and the exception leaves the function).
\<close>

theorem parse_all_sites_counts:
  assumes "fs config_file = JsonFile (JObj cfg)"
    and "map_of cfg ''sites'' = Some (JArr entries)"
    and "entries \<noteq> []"
  shows "(\<forall>s f n fs' t. parse_all_sites e fs config_file output_dir = (Inr (s, f, n), fs', t)
            \<longrightarrow> s + f = n \<and> n = length entries)
       \<and> (can_mkdir e output_dir \<and> (\<forall>site\<in>set entries. entry_name_ok site)
            \<longrightarrow> (\<exists>s f fs' t. parse_all_sites e fs config_file output_dir
                                 = (Inr (s, f, length entries), fs', t)
                               \<and> s + f = length entries))"
proof -
  have unfold: "parse_all_sites e fs config_file output_dir =
      (case sites_loop e output_dir fs 1 0 0 entries of
         (Inl err, fs', t) \<Rightarrow> (Inl err, fs', t)
       | (Inr (s, f), fs', t) \<Rightarrow> (Inr (s, f, length entries), fs', t))"
    using assms by (simp add: parse_all_sites_def dict_get_def)
  have part: "s + f = n \<and> n = length entries"
    if "parse_all_sites e fs config_file output_dir = (Inr (s, f, n), fs', t)" for s f n fs' t
  proof -
    from that unfold have "sites_loop e output_dir fs 1 0 0 entries = (Inr (s, f), fs', t) \<and> n = length entries"
      by (auto split: prod.splits sum.splits)
    with sites_loop_counts [of e output_dir fs 1 0 0 entries s f fs' t] show ?thesis by simp
  qed
  have tot: "\<exists>s f fs' t. parse_all_sites e fs config_file output_dir = (Inr (s, f, length entries), fs', t)
                \<and> s + f = length entries"
    if "can_mkdir e output_dir" "\<forall>site\<in>set entries. entry_name_ok site"
  proof -
    from sites_loop_returns [OF that, of fs 1 0 0] obtain s f fs' t where
      l: "sites_loop e output_dir fs 1 0 0 entries = (Inr (s, f), fs', t)" by blast
    then have "parse_all_sites e fs config_file output_dir = (Inr (s, f, length entries), fs', t)"
      using unfold by simp
    with part show ?thesis by blast
  qed
  from part tot show ?thesis by blast
qed

theorem parse_all_sites_counts_witness:
  "\<exists>fs'. parse_all_sites
      (demo_env (\<lambda>u. if u = ''http://h/one'' then Json (JObj [(''list'', JArr [])]) else ReqError))
      (\<lambda>p. if p = ''tvbox_config.json''
            then JsonFile (JObj [(''sites'', JArr [JStr ''junk'',
                                                   JObj [(''name'', JStr ''no api'')],
                                                   JObj [(''name'', JStr ''one''), (''api'', JStr ''http://h/one'')],
                                                   JObj [(''name'', JStr ''two''), (''api'', JStr ''http://h/two'')]])])
            else NoFile)
      ''tvbox_config.json'' ''sites''
    = (Inr (1, 3, 4), fs', [''http://h/one'', ''http://h/two''])"
proof -
  let ?e = "demo_env (\<lambda>u. if u = ''http://h/one'' then Json (JObj [(''list'', JArr [])]) else ReqError)"
  let ?entries = "[JStr ''junk'',
                   JObj [(''name'', JStr ''no api'')],
                   JObj [(''name'', JStr ''one''), (''api'', JStr ''http://h/one'')],
                   JObj [(''name'', JStr ''two''), (''api'', JStr ''http://h/two'')]]"
  let ?fs = "\<lambda>p. if p = ''tvbox_config.json'' then JsonFile (JObj [(''sites'', JArr ?entries)]) else NoFile"
  have names: "can_mkdir ?e ''sites'' \<and> (\<forall>site\<in>set ?entries. entry_name_ok site)"
    by (simp add: demo_env_def entry_name_ok_def)
  from parse_all_sites_counts [of ?fs "''tvbox_config.json''" "[(''sites'', JArr ?entries)]" ?entries ?e "''sites''"]
    names
  obtain s f fs' t where
    r: "parse_all_sites ?e ?fs ''tvbox_config.json'' ''sites'' = (Inr (s, f, length ?entries), fs', t)"
    and sum: "s + f = length ?entries"
    by auto
  have ev: "fst (parse_all_sites ?e ?fs ''tvbox_config.json'' ''sites'') = Inr (1, 3, 4)
          \<and> snd (snd (parse_all_sites ?e ?fs ''tvbox_config.json'' ''sites'')) = [''http://h/one'', ''http://h/two'']"
    by (simp add: parse_all_sites_def dict_get_def fetch_site_config_def save_site_config_def
        demo_env_def Let_def)
  with r show ?thesis by auto
qed

section \<open>What the backfill merge writes\<close>

text \<open>
  For a detail that is a dict the six assignments are one pass over \<open>merged_keys\<close>, each
  key getting \<open>detail_value\<close> when there is one.
\<close>

lemma py_in_dict: "py_in k (JObj d) = Inr (map_of d k \<noteq> None)"
  by (simp add: map_of_eq_None_iff)

lemma copy_item_dict: "copy_item k (JObj d) v = Inr (put_if (map_of d k) k v)"
  by (cases "map_of d k") (simp_all del: py_in.simps add: copy_item_def and_then_def py_in_dict put_if_def dict_get_def)

lemma copy_get_dict: "copy_get k (JObj d) v = Inr (put_if (map_of d k) k v)"
  by (cases "map_of d k") (simp_all del: py_in.simps add: copy_get_def and_then_def py_in_dict put_if_def dict_get_def)

lemma copy_nonempty_dict:
  "copy_nonempty k (JObj d) v =
     Inr (put_if (case map_of d k of None \<Rightarrow> None | Some x \<Rightarrow> if truthy x then Some x else None) k v)"
  by (cases "map_of d k") (simp_all del: py_in.simps add: copy_nonempty_def and_then_def py_in_dict put_if_def dict_get_def)

lemma merge_detail_dict:
  "merge_detail (JObj d) v = Inr (fold (\<lambda>k. put_if (detail_value d k) k) merged_keys v)"
proof -
  have dv: "detail_value d ''vod_play_from'' = map_of d ''vod_play_from''"
    "detail_value d ''vod_play_url'' = map_of d ''vod_play_url''"
    "detail_value d ''vod_actor'' = map_of d ''vod_actor''"
    "detail_value d ''vod_director'' = map_of d ''vod_director''"
    "detail_value d ''vod_score'' = map_of d ''vod_score''"
    "detail_value d ''vod_content'' =
       (case map_of d ''vod_content'' of None \<Rightarrow> None | Some x \<Rightarrow> if truthy x then Some x else None)"
    by (simp_all add: detail_value_def split: option.splits)
  show ?thesis
    by (simp add: merge_detail_def and_then_def copy_item_dict copy_get_dict copy_nonempty_dict
        merged_keys_def dv)
qed

lemma map_of_put_if:
  "map_of (put_if x k v) j = (if j = k then (case x of None \<Rightarrow> map_of v j | Some y \<Rightarrow> Some y) else map_of v j)"
  by (cases x) (simp_all add: put_if_def update_conv')

lemma map_of_fold_put:
  "map_of (fold (\<lambda>k. put_if (g k) k) ks v) j =
     (if j \<in> set ks then (case g j of None \<Rightarrow> map_of v j | Some y \<Rightarrow> Some y) else map_of v j)"
  by (induction ks arbitrary: v) (auto simp: map_of_put_if split: option.splits)

lemma keys_put_if: "fst ` set v \<subseteq> fst ` set (put_if x k v)"
  by (cases x) (auto simp: put_if_def dom_update)

lemma keys_fold_put: "fst ` set v \<subseteq> fst ` set (fold (\<lambda>k. put_if (g k) k) ks v)"
proof (induction ks arbitrary: v)
  case Nil
  then show ?case by simp
next
  case (Cons k ks)
  have "fst ` set v \<subseteq> fst ` set (put_if (g k) k v)" by (rule keys_put_if)
  also have "\<dots> \<subseteq> fst ` set (fold (\<lambda>k. put_if (g k) k) ks (put_if (g k) k v))" by (rule Cons.IH)
  finally show ?case by simp
qed

lemma fold_put_fixed:
  assumes "\<forall>k\<in>set ks. \<forall>x. g k = Some x \<longrightarrow> map_of w k = Some x"
  shows "fold (\<lambda>k. put_if (g k) k) ks w = w"
  using assms
proof (induction ks)
  case Nil
  then show ?case by simp
next
  case (Cons k ks)
  have "put_if (g k) k w = w"
    using Cons.prems by (cases "g k") (simp_all add: put_if_def update_triv)
  with Cons show ?case by simp
qed

lemma merge_detail_dict_idem:
  "merge_detail (JObj d) v = Inr v' \<Longrightarrow> merge_detail (JObj d) v' = Inr v'"
  by (auto simp: merge_detail_dict map_of_fold_put intro!: fold_put_fixed)

text \<open>
  Claim C6, as the code has it. For every record \<open>v\<close> and every detail dict \<open>d\<close> the merge
  succeeds, and in its result: no key of the record is missing; a key outside the six
  whitelisted ones has the value it had; a key the detail does not carry has the value it
  had; \<^verbatim>\<open>vod_content\<close> takes the detail's value only when that value is non-empty, so a
  populated description is never blanked; and each of the other five whitelisted keys takes
  the detail's value whenever the detail carries the key, whatever that value is.
\<close>

theorem merge_detail_additive:
  "\<exists>v'. merge_detail (JObj d) v = Inr v'
        \<and> fst ` set v \<subseteq> fst ` set v'
        \<and> (\<forall>k. k \<notin> set merged_keys \<longrightarrow> map_of v' k = map_of v k)
        \<and> (\<forall>k. map_of d k = None \<longrightarrow> map_of v' k = map_of v k)
        \<and> (\<forall>k\<in>set merged_keys. \<forall>x. map_of d k = Some x \<and> k \<noteq> ''vod_content''
               \<longrightarrow> map_of v' k = Some x)
        \<and> (\<forall>x. map_of d ''vod_content'' = Some x
               \<longrightarrow> map_of v' ''vod_content'' = (if truthy x then Some x else map_of v ''vod_content''))"
proof -
  let ?v' = "fold (\<lambda>k. put_if (detail_value d k) k) merged_keys v"
  have "merge_detail (JObj d) v = Inr ?v'" by (rule merge_detail_dict)
  moreover have "fst ` set v \<subseteq> fst ` set ?v'" by (rule keys_fold_put)
  moreover have "\<forall>k. k \<notin> set merged_keys \<longrightarrow> map_of ?v' k = map_of v k"
    by (simp add: map_of_fold_put)
  moreover have "\<forall>k. map_of d k = None \<longrightarrow> map_of ?v' k = map_of v k"
    by (simp add: map_of_fold_put detail_value_def)
  moreover have "\<forall>k\<in>set merged_keys. \<forall>x. map_of d k = Some x \<and> k \<noteq> ''vod_content''
               \<longrightarrow> map_of ?v' k = Some x"
    by (simp add: map_of_fold_put detail_value_def)
  moreover have "\<forall>x. map_of d ''vod_content'' = Some x
               \<longrightarrow> map_of ?v' ''vod_content'' = (if truthy x then Some x else map_of v ''vod_content'')"
  proof -
    have "''vod_content'' \<in> set merged_keys" by (simp add: merged_keys_def)
    then show ?thesis by (simp add: map_of_fold_put detail_value_def)
  qed
  ultimately show ?thesis by blast
qed

theorem merge_detail_additive_witness:
  "\<exists>v'. merge_detail
           (JObj [(''vod_id'', JInt 1), (''vod_name'', JStr ''other''), (''vod_play_url'', JStr ''ep1$http://v/1.m3u8''),
                  (''vod_content'', JStr [])])
           [(''vod_id'', JInt 1), (''vod_name'', JStr ''film''), (''vod_content'', JStr ''plot''),
            (''vod_actor'', JStr ''A'')]
         = Inr v'
       \<and> map_of v' ''vod_name'' = Some (JStr ''film'')
       \<and> map_of v' ''vod_actor'' = Some (JStr ''A'')
       \<and> map_of v' ''vod_play_url'' = Some (JStr ''ep1$http://v/1.m3u8'')
       \<and> map_of v' ''vod_content'' = Some (JStr ''plot'')"
proof -
  let ?d = "[(''vod_id'', JInt 1), (''vod_name'', JStr ''other''), (''vod_play_url'', JStr ''ep1$http://v/1.m3u8''),
             (''vod_content'', JStr [])]"
  let ?v = "[(''vod_id'', JInt 1), (''vod_name'', JStr ''film''), (''vod_content'', JStr ''plot''),
             (''vod_actor'', JStr ''A'')]"
  from merge_detail_additive [of ?d ?v] obtain v' where
    m: "merge_detail (JObj ?d) ?v = Inr v'"
    and frame: "\<forall>k. k \<notin> set merged_keys \<longrightarrow> map_of v' k = map_of ?v k"
    and absent: "\<forall>k. map_of ?d k = None \<longrightarrow> map_of v' k = map_of ?v k"
    and copied: "\<forall>k\<in>set merged_keys. \<forall>x. map_of ?d k = Some x \<and> k \<noteq> ''vod_content''
               \<longrightarrow> map_of v' k = Some x"
    and content: "\<forall>x. map_of ?d ''vod_content'' = Some x
               \<longrightarrow> map_of v' ''vod_content'' = (if truthy x then Some x else map_of ?v ''vod_content'')"
    by blast
  from frame have "map_of v' ''vod_name'' = Some (JStr ''film'')" by (simp add: merged_keys_def)
  moreover from absent have "map_of v' ''vod_actor'' = Some (JStr ''A'')" by simp
  moreover from copied have "map_of v' ''vod_play_url'' = Some (JStr ''ep1$http://v/1.m3u8'')"
    by (simp add: merged_keys_def)
  moreover from content have "map_of v' ''vod_content'' = Some (JStr ''plot'')" by simp
  ultimately show ?thesis using m by blast
qed

lemma demo_detail_url: "detail_url e ''http://h/api'' (JInt 1) = ''http://h/api?ac=detail&ids=1''"
  by (simp add: detail_url_def format_value_def str_int_def str_nat.simps)

text \<open>
  The claim as the specification words it fails: only \<^verbatim>\<open>vod_content\<close> is guarded by
  \<^verbatim>\<open>detail.get(...)\<close>. A record with a populated \<^verbatim>\<open>vod_actor\<close> and no playback URL,
  whose detail carries \<^verbatim>\<open>vod_actor\<close> as the empty string, comes out of one round of the
  loop with \<^verbatim>\<open>vod_actor\<close> empty.
\<close>

theorem merge_blanks_actor_counterexample:
  "process_video
     (demo_env (\<lambda>u. if u = ''http://h/api?ac=detail&ids=1''
                     then Json (JObj [(''list'', JArr [JObj [(''vod_id'', JInt 1),
                                                             (''vod_play_url'', JStr ''ep1$http://v/1.m3u8''),
                                                             (''vod_actor'', JStr [])]])])
                     else ReqError))
     (JStr ''http://h/api'')
     (JObj [(''vod_id'', JInt 1), (''vod_name'', JStr ''film''), (''vod_actor'', JStr ''A'')]) 0 0
   = (Inr (JObj [(''vod_id'', JInt 1), (''vod_name'', JStr ''film''), (''vod_actor'', JStr []),
                 (''vod_play_url'', JStr ''ep1$http://v/1.m3u8'')], 1, 0),
      [''http://h/api?ac=detail&ids=1''])"
  by (simp add: process_video_def dict_get_def fetch_vod_detail_def demo_detail_url demo_env_def
      first_detail_def merge_detail_dict merged_keys_def detail_value_def put_if_def Let_def)

section \<open>Running the backfill again\<close>

lemma merge_detail_other:
  assumes "merge_detail detail v = Inr v'" and "\<forall>d. detail \<noteq> JObj d"
  shows "v' = v"
proof (cases detail)
  case (JStr s)
  with assms(1) show ?thesis
    by (simp add: merge_detail_def copy_item_def copy_get_def copy_nonempty_def and_then_def
        split: if_splits)
next
  case (JArr xs)
  with assms(1) show ?thesis
    by (simp add: merge_detail_def copy_item_def copy_get_def copy_nonempty_def and_then_def
        split: if_splits)
next
  case (JObj d)
  with assms(2) show ?thesis by simp
qed (use assms(1) in \<open>simp_all add: merge_detail_def copy_item_def and_then_def\<close>)

lemma merge_detail_idem:
  assumes "merge_detail detail v = Inr v'"
  shows "merge_detail detail v' = Inr v'"
proof (cases "\<exists>d. detail = JObj d")
  case True
  with assms show ?thesis by (auto dest: merge_detail_dict_idem)
next
  case False
  with assms have "v' = v" by (auto dest: merge_detail_other)
  with assms show ?thesis by simp
qed

lemma merge_detail_keeps:
  assumes "merge_detail detail v = Inr v'" and "k \<notin> set merged_keys"
  shows "dict_get v' k x = dict_get v k x"
proof (cases "\<exists>d. detail = JObj d")
  case True
  with assms show ?thesis by (auto simp: merge_detail_dict map_of_fold_put dict_get_def)
next
  case False
  with assms have "v' = v" by (auto dest: merge_detail_other)
  then show ?thesis by simp
qed

lemma process_video_dict:
  "process_video e api (JObj v) s f =
     (if \<not> truthy (dict_get v ''vod_id'' JNull) then (Inr (JObj v, s, f), [])
      else if has_play_url (JObj v) then
        (if py_sliceable (dict_get v ''vod_name'' (JStr ''??'')) then (Inr (JObj v, s + 1, f), [])
         else (Inl TypeError, []))
      else if \<not> py_sliceable (dict_get v ''vod_name'' (JStr ''??'')) then (Inl TypeError, [])
      else
        (case fetch_vod_detail e api (dict_get v ''vod_id'' JNull) of
           (Inl err, t) \<Rightarrow> (Inl err, t)
         | (Inr detail, t) \<Rightarrow>
             if truthy detail then
               (case merge_detail detail v of
                  Inl err \<Rightarrow> (Inl err, t)
                | Inr v' \<Rightarrow> (Inr (JObj v', s + 1, f), t))
             else (Inr (JObj v, s, f + 1), t)))"
  by (simp add: process_video_def has_play_url_def Let_def)

lemma process_video_again:
  assumes "process_video e api video s f = (Inr (video', s', f'), t)"
  shows "\<exists>t'. process_video e api video' s f = (Inr (video', s', f'), t') \<and> (t' = [] \<or> t' = t)"
proof (cases video)
  case (JObj v)
  let ?id = "dict_get v ''vod_id'' JNull"
  let ?name = "dict_get v ''vod_name'' (JStr ''??'')"
  note run = assms [unfolded JObj process_video_dict]
  show ?thesis
  proof (cases "truthy ?id")
    case False
    with run have "video' = JObj v" "s' = s" "f' = f" "t = []" by simp_all
    with False show ?thesis by (simp add: process_video_dict)
  next
    case id: True
    show ?thesis
    proof (cases "has_play_url (JObj v)")
      case True
      with run id have "py_sliceable ?name \<and> video' = JObj v \<and> s' = s + 1 \<and> f' = f \<and> t = []"
        by (simp split: if_splits)
      with True id show ?thesis by (simp add: process_video_dict)
    next
      case nourl: False
      with run id have sl: "py_sliceable ?name" by (simp split: if_splits)
      obtain r t0 where fd: "fetch_vod_detail e api ?id = (r, t0)"
        by (cases "fetch_vod_detail e api ?id")
      from run id nourl sl fd obtain detail where r: "r = Inr detail" and t: "t0 = t"
        by (cases r) (auto split: if_splits sum.splits)
      show ?thesis
      proof (cases "truthy detail")
        case False
        with run id nourl sl fd r have "video' = JObj v" "s' = s" "f' = f + 1" by simp_all
        with False id nourl sl fd r t show ?thesis by (simp add: process_video_dict)
      next
        case dt: True
        with run id nourl sl fd r obtain v' where
          m: "merge_detail detail v = Inr v'" and out: "video' = JObj v'" "s' = s + 1" "f' = f"
          by (cases "merge_detail detail v") auto
        have keys: "''vod_id'' \<notin> set merged_keys" "''vod_name'' \<notin> set merged_keys"
          by (simp_all add: merged_keys_def)
        have same: "dict_get v' ''vod_id'' JNull = ?id" "dict_get v' ''vod_name'' (JStr ''??'') = ?name"
          using merge_detail_keeps [OF m] keys by simp_all
        from m have again: "merge_detail detail v' = Inr v'" by (rule merge_detail_idem)
        show ?thesis
        proof (cases "has_play_url (JObj v')")
          case True
          with id sl same out show ?thesis by (simp add: process_video_dict)
        next
          case False
          with id sl same out fd r t dt again show ?thesis by (simp add: process_video_dict)
        qed
      qed
    qed
  qed
qed (use assms in \<open>auto simp: process_video_def\<close>)

lemma process_video_no_fetch:
  "\<not> needs_fetch video \<Longrightarrow> snd (process_video e api video s f) = []"
proof (cases video)
  case (JObj v)
  assume "\<not> needs_fetch video"
  with JObj show ?thesis by (auto simp: process_video_dict needs_fetch_def)
qed (simp_all add: process_video_def)

lemma process_video_counted:
  assumes "has_play_url (JObj v)" and "truthy (dict_get v ''vod_id'' JNull)"
    and "py_sliceable (dict_get v ''vod_name'' (JStr ''??''))"
  shows "process_video e api (JObj v) s f = (Inr (JObj v, s + 1, f), [])"
  using assms by (simp add: process_video_dict)

lemma videos_loop_again:
  assumes "videos_loop e api s f vs = (Inr (vs', s', f'), t)"
  shows "\<exists>t'. videos_loop e api s f vs' = (Inr (vs', s', f'), t')
              \<and> set t' \<subseteq> set t \<and> length t' \<le> length t \<and> length vs' = length vs"
  using assms
proof (induction vs arbitrary: s f vs' s' f' t)
  case Nil
  then show ?case by auto
next
  case (Cons video rest)
  obtain r t0 where pv: "process_video e api video s f = (r, t0)"
    by (cases "process_video e api video s f")
  from Cons.prems pv obtain video1 s1 f1 where r: "r = Inr (video1, s1, f1)"
    by (cases r) auto
  obtain r2 t1 where lp: "videos_loop e api s1 f1 rest = (r2, t1)"
    by (cases "videos_loop e api s1 f1 rest")
  from Cons.prems pv r lp obtain rest1 where r2: "r2 = Inr (rest1, s', f')"
    and vs': "vs' = video1 # rest1" and t: "t = t0 @ t1"
    by (cases r2) auto
  from process_video_again [of e api video s f video1 s1 f1 t0] pv r obtain t0' where
    a: "process_video e api video1 s f = (Inr (video1, s1, f1), t0')" and a': "t0' = [] \<or> t0' = t0"
    by auto
  from Cons.IH [of s1 f1 rest1 s' f' t1] lp r2 obtain t1' where
    b: "videos_loop e api s1 f1 rest1 = (Inr (rest1, s', f'), t1')"
    and b': "set t1' \<subseteq> set t1" "length t1' \<le> length t1" "length rest1 = length rest"
    by auto
  have "videos_loop e api s f vs' = (Inr (vs', s', f'), t0' @ t1')"
    using a b vs' by simp
  moreover have "set (t0' @ t1') \<subseteq> set t" "length (t0' @ t1') \<le> length t"
    using a' b' t by auto
  ultimately show ?case using vs' b'(3) by auto
qed

lemma videos_loop_no_fetch:
  "\<forall>v\<in>set vs. \<not> needs_fetch v \<Longrightarrow> snd (videos_loop e api s f vs) = []"
proof (induction vs arbitrary: s f)
  case Nil
  then show ?case by simp
next
  case (Cons video rest)
  then have "snd (process_video e api video s f) = []" by (simp add: process_video_no_fetch)
  moreover have "\<And>s f. snd (videos_loop e api s f rest) = []" using Cons by simp
  ultimately show ?case
    by (auto split: prod.splits sum.splits) (metis snd_conv)+
qed

lemma videos_loop_not_dicts:
  "\<forall>v\<in>set vs. \<forall>d. v \<noteq> JObj d \<Longrightarrow> videos_loop e api s f vs = (Inr (vs, s, f), [])"
proof (induction vs)
  case Nil
  then show ?case by simp
next
  case (Cons video rest)
  then have "process_video e api video s f = (Inr (video, s, f), [])"
    by (cases video) (simp_all add: process_video_def)
  with Cons show ?case by simp
qed

lemma lookup_after_write:
  "p \<noteq> root_config_path e \<Longrightarrow>
     get_site_api_url_of_file e (fs(p := x)) site_file = get_site_api_url_of_file e fs site_file"
  by (simp add: get_site_api_url_of_file_def lookup_sites_def root_config_path_def)

lemma update_array_case:
  assumes "fs (site_file_path e site_dir site_file) = JsonFile (JObj sd)"
    and "truthy (get_site_api_url_of_file e fs site_file)"
    and "dict_get sd ''list'' (JArr []) = JArr xs" and "xs \<noteq> []"
  shows "update_site_with_play_urls e fs site_file site_dir =
     (case videos_loop e (get_site_api_url_of_file e fs site_file) 0 0 xs of
        (Inl err, t) \<Rightarrow> (Inl err, fs, t)
      | (Inr (vs', s, f), t) \<Rightarrow>
          if writable e (site_file_path e site_dir site_file)
          then (Inr (s, f, length xs),
                fs(site_file_path e site_dir site_file :=
                     JsonFile (JObj (AList.update ''list'' (JArr vs') sd))), t)
          else (Inr (0, 0, 0), fs, t))"
  using assms
  by (simp add: update_site_with_play_urls_def site_file_path_def Let_def
      split: prod.splits sum.splits)

lemma update_other_case:
  assumes run: "update_site_with_play_urls e fs site_file site_dir = (Inr r, fs1, t)"
    and other: "\<not> (\<exists>sd xs. fs (site_file_path e site_dir site_file) = JsonFile (JObj sd)
                   \<and> truthy (get_site_api_url_of_file e fs site_file)
                   \<and> dict_get sd ''list'' (JArr []) = JArr xs \<and> xs \<noteq> [])"
  shows "fs1 = fs \<and> t = []"
proof (cases "fs (site_file_path e site_dir site_file)")
  case NoFile
  with run show ?thesis by (simp add: update_site_with_play_urls_def site_file_path_def Let_def)
next
  case BadFile
  with run show ?thesis by (simp add: update_site_with_play_urls_def site_file_path_def Let_def)
next
  case (JsonFile site_data)
  note jf = this
  show ?thesis
  proof (cases "truthy (get_site_api_url_of_file e fs site_file)")
    case False
    with run jf show ?thesis
      by (simp add: update_site_with_play_urls_def site_file_path_def Let_def)
  next
    case api: True
    from run jf api obtain sd where sd: "site_data = JObj sd"
      by (cases site_data)
         (simp_all add: update_site_with_play_urls_def site_file_path_def Let_def)
    let ?vl = "dict_get sd ''list'' (JArr [])"
    show ?thesis
    proof (cases "truthy ?vl")
      case False
      with run jf api sd show ?thesis
        by (simp add: update_site_with_play_urls_def site_file_path_def Let_def)
    next
      case tv: True
      from other jf api sd tv have notarr: "\<forall>xs. ?vl \<noteq> JArr xs" by auto
      from run jf api sd tv obtain n where len: "py_len ?vl = Inr n"
        by (cases "py_len ?vl")
           (simp_all add: update_site_with_play_urls_def site_file_path_def Let_def)
      with notarr obtain vs where it: "py_iter ?vl = Inr vs" and nd: "\<forall>v\<in>set vs. \<forall>d. v \<noteq> JObj d"
        by (cases ?vl) auto
      have loop: "\<And>a. videos_loop e a 0 0 vs = (Inr (vs, 0, 0), [])"
        using nd by (rule videos_loop_not_dicts)
      have same: "(case (JObj sd, ?vl) of (JObj sd', JArr xs) \<Rightarrow> JObj (AList.update ''list'' (JArr vs) sd')
                    | _ \<Rightarrow> JObj sd) = JObj sd"
        using notarr by (cases ?vl) simp_all
      have idem: "fs(site_file_path e site_dir site_file := JsonFile (JObj sd)) = fs"
        using jf sd by (simp add: fun_upd_idem)
      from run jf api sd tv len it loop same idem show ?thesis
        by (simp add: update_site_with_play_urls_def Let_def site_file_path_def [symmetric]
            split: if_splits)
    qed
  qed
qed

lemma site_file_apart:
  assumes "CHR ''/'' \<notin> set site_file"
  shows "site_file_path e ''sites'' site_file \<noteq> root_config_path e"
proof -
  have "\<not> starts_with ''/'' site_file" using assms by (cases site_file) auto
  then show ?thesis
    by (auto simp: site_file_path_def root_config_path_def os_path_join_def)
qed

lemma demo_site_path: "site_file_path (demo_env g) ''sites'' ''demo.json'' = ''/srv/tvbox/sites/demo.json''"
  by (simp add: site_file_path_def os_path_join_def demo_env_def)

lemma demo_write:
  "(demo_files ''demo.json'' doc)(''/srv/tvbox/sites/demo.json'' := JsonFile doc') = demo_files ''demo.json'' doc'"
  by (rule ext) (simp add: demo_files_def)

lemma demo_api_of_file:
  "get_site_api_url_of_file (demo_env g) (demo_files ''demo.json'' doc) ''demo.json'' = JStr ''http://h/api''"
  by (simp add: get_site_api_url_of_file_def lookup_sites_def os_path_join_def demo_env_def
      demo_files_def demo_root_def dict_get_def replace.simps)

lemma demo_detail_urls:
  "detail_url e ''http://h/api'' (JInt 2) = ''http://h/api?ac=detail&ids=2''"
  by (simp add: detail_url_def format_value_def str_int_def str_nat.simps)

lemma demo_run:
  assumes "dict_get sd ''list'' (JArr []) = JArr xs" and "xs \<noteq> []"
  shows "update_site_with_play_urls (demo_env g) (demo_files ''demo.json'' (JObj sd)) ''demo.json'' ''sites'' =
     (case videos_loop (demo_env g) (JStr ''http://h/api'') 0 0 xs of
        (Inl err, t) \<Rightarrow> (Inl err, demo_files ''demo.json'' (JObj sd), t)
      | (Inr (vs', s, f), t) \<Rightarrow>
          (Inr (s, f, length xs),
           demo_files ''demo.json'' (JObj (AList.update ''list'' (JArr vs') sd)), t))"
proof -
  have jf: "demo_files ''demo.json'' (JObj sd) (site_file_path (demo_env g) ''sites'' ''demo.json'') = JsonFile (JObj sd)"
    by (simp add: demo_site_path demo_files_def)
  have api: "truthy (get_site_api_url_of_file (demo_env g) (demo_files ''demo.json'' (JObj sd)) ''demo.json'')"
    by (simp add: demo_api_of_file)
  have w: "writable (demo_env g) p" for p by (simp add: demo_env_def)
  show ?thesis
    unfolding update_array_case [OF jf api assms]
    by (simp add: demo_api_of_file demo_site_path demo_write w split: prod.splits sum.splits)
qed

text \<open>
  Claim C7, as the code has it. Whenever a run of the backfill returns, a second run on the
  files it left, with upstream unchanged, returns the same triple and leaves every file as it
  is, so the \<^verbatim>\<open>list\<close> is unchanged; every URL it requests was requested by the first run
  and it makes no more requests than the first; and it makes none at all when no record of
  the file left by the first run still lacks a playback URL. (The site file is not the root
  config, which holds for every file name without a slash under \<^verbatim>\<open>sites\<close>.) Record by
  record: for one with an id and a non-empty \<^verbatim>\<open>vod_play_url\<close> nothing is requested,
  whatever else it holds; if its round returns at all, the record is returned as it is and
  counted as a success; and the round does return when its \<^verbatim>\<open>vod_name\<close> is absent, a
  string or a list, which is what the progress line \<^verbatim>\<open>vod_name[:30]\<close> can slice.
\<close>

theorem backfill_rerun:
  assumes "update_site_with_play_urls e fs site_file site_dir = (Inr r1, fs1, t1)"
    and "site_file_path e site_dir site_file \<noteq> root_config_path e"
  shows "(\<exists>t2. update_site_with_play_urls e fs1 site_file site_dir = (Inr r1, fs1, t2)
              \<and> set t2 \<subseteq> set t1 \<and> length t2 \<le> length t1
              \<and> ((\<forall>doc. fs1 (site_file_path e site_dir site_file) = JsonFile doc
                      \<longrightarrow> (\<forall>video\<in>set (doc_list doc). \<not> needs_fetch video))
                   \<longrightarrow> t2 = []))
       \<and> (\<forall>v api s f. has_play_url (JObj v) \<and> truthy (dict_get v ''vod_id'' JNull)
              \<longrightarrow> snd (process_video e api (JObj v) s f) = []
                \<and> (\<forall>r. fst (process_video e api (JObj v) s f) = Inr r
                       \<longrightarrow> r = (JObj v, s + 1, f))
                \<and> (py_sliceable (dict_get v ''vod_name'' (JStr ''??''))
                       \<longrightarrow> process_video e api (JObj v) s f = (Inr (JObj v, s + 1, f), [])))"
proof -
  let ?p = "site_file_path e site_dir site_file"
  let ?api = "get_site_api_url_of_file e fs site_file"
  have second: "\<exists>t2. update_site_with_play_urls e fs1 site_file site_dir = (Inr r1, fs1, t2)
              \<and> set t2 \<subseteq> set t1 \<and> length t2 \<le> length t1
              \<and> ((\<forall>doc. fs1 ?p = JsonFile doc \<longrightarrow> (\<forall>video\<in>set (doc_list doc). \<not> needs_fetch video))
                   \<longrightarrow> t2 = [])"
  proof (cases "\<exists>sd xs. fs ?p = JsonFile (JObj sd) \<and> truthy ?api
                   \<and> dict_get sd ''list'' (JArr []) = JArr xs \<and> xs \<noteq> []")
    case False
    from update_other_case [OF assms(1) False] have "fs1 = fs" "t1 = []" by simp_all
    with assms(1) show ?thesis by simp
  next
    case True
    then obtain sd xs where jf: "fs ?p = JsonFile (JObj sd)" and api: "truthy ?api"
      and vl: "dict_get sd ''list'' (JArr []) = JArr xs" and ne: "xs \<noteq> []" by blast
    note unf = update_array_case [OF jf api vl ne]
    obtain r t where lp: "videos_loop e ?api 0 0 xs = (r, t)"
      by (cases "videos_loop e ?api 0 0 xs")
    from assms(1) unf lp obtain vs' s f where r: "r = Inr (vs', s, f)"
      by (cases r) auto
    have dl: "doc_list (JObj sd) = xs"
      using vl by (auto simp: doc_list_def dict_get_def split: option.splits)
    show ?thesis
    proof (cases "writable e ?p")
      case False
      with assms(1) unf lp r have eq: "fs1 = fs" "t1 = t" "r1 = (0, 0, 0)" by simp_all
      have "t = []" if "\<forall>doc. fs1 ?p = JsonFile doc \<longrightarrow> (\<forall>video\<in>set (doc_list doc). \<not> needs_fetch video)"
      proof -
        from that eq jf dl have "\<forall>video\<in>set xs. \<not> needs_fetch video" by auto
        from videos_loop_no_fetch [OF this, of e ?api 0 0] lp show ?thesis by simp
      qed
      with assms(1) eq show ?thesis by auto
    next
      case w: True
      let ?sd' = "AList.update ''list'' (JArr vs') sd"
      from assms(1) unf lp r w have eq: "fs1 = fs(?p := JsonFile (JObj ?sd'))" "t1 = t"
        "r1 = (s, f, length xs)" by simp_all
      from videos_loop_again [of e ?api 0 0 xs vs' s f t] lp r obtain t' where
        again: "videos_loop e ?api 0 0 vs' = (Inr (vs', s, f), t')"
        and sub: "set t' \<subseteq> set t" "length t' \<le> length t" and len: "length vs' = length xs"
        by auto
      from len ne have ne': "vs' \<noteq> []" by auto
      have jf1: "fs1 ?p = JsonFile (JObj ?sd')" using eq by simp
      have api1: "get_site_api_url_of_file e fs1 site_file = ?api"
        unfolding eq(1) using assms(2) by (rule lookup_after_write)
      have vl1: "dict_get ?sd' ''list'' (JArr []) = JArr vs'"
        by (simp add: dict_get_def update_conv')
      from api api1 have api1t: "truthy (get_site_api_url_of_file e fs1 site_file)" by simp
      have stays: "fs1(?p := JsonFile (JObj (AList.update ''list'' (JArr vs') ?sd'))) = fs1"
        using jf1 by (simp add: fun_upd_idem)
      have run2: "update_site_with_play_urls e fs1 site_file site_dir = (Inr r1, fs1, t')"
        using update_array_case [OF jf1 api1t vl1 ne'] again w stays len
        by (simp add: api1 eq(3))
      have dl1: "doc_list (JObj ?sd') = vs'"
        by (simp add: doc_list_def update_conv')
      have "t' = []" if "\<forall>doc. fs1 ?p = JsonFile doc \<longrightarrow> (\<forall>video\<in>set (doc_list doc). \<not> needs_fetch video)"
      proof -
        from that jf1 dl1 have "\<forall>video\<in>set vs'. \<not> needs_fetch video" by auto
        from videos_loop_no_fetch [OF this, of e ?api 0 0] again show ?thesis by simp
      qed
      with run2 sub eq(2) show ?thesis by auto
    qed
  qed
  have each: "\<forall>v api s f. has_play_url (JObj v) \<and> truthy (dict_get v ''vod_id'' JNull)
              \<longrightarrow> snd (process_video e api (JObj v) s f) = []
                \<and> (\<forall>r. fst (process_video e api (JObj v) s f) = Inr r
                       \<longrightarrow> r = (JObj v, s + 1, f))
                \<and> (py_sliceable (dict_get v ''vod_name'' (JStr ''??''))
                       \<longrightarrow> process_video e api (JObj v) s f = (Inr (JObj v, s + 1, f), []))"
    by (simp add: process_video_dict)
  from second each show ?thesis by blast
qed

theorem backfill_rerun_witness:
  "update_site_with_play_urls
     (demo_env (\<lambda>u. if u = ''http://h/api?ac=detail&ids=2''
                     then Json (JObj [(''list'', JArr [JObj [(''vod_id'', JInt 2),
                                                             (''vod_play_url'', JStr ''ep1$http://v/2.m3u8'')]])])
                     else ReqError))
     (demo_files ''demo.json''
        (JObj [(''list'', JArr [JObj [(''vod_id'', JInt 1), (''vod_name'', JStr ''one''),
                                      (''vod_play_url'', JStr ''ep1$http://v/1.m3u8'')],
                                JObj [(''vod_id'', JInt 2), (''vod_name'', JStr ''two''),
                                      (''vod_play_url'', JStr ''ep1$http://v/2.m3u8'')]])]))
     ''demo.json'' ''sites''
   = (Inr (2, 0, 2),
      demo_files ''demo.json''
        (JObj [(''list'', JArr [JObj [(''vod_id'', JInt 1), (''vod_name'', JStr ''one''),
                                      (''vod_play_url'', JStr ''ep1$http://v/1.m3u8'')],
                                JObj [(''vod_id'', JInt 2), (''vod_name'', JStr ''two''),
                                      (''vod_play_url'', JStr ''ep1$http://v/2.m3u8'')]])]),
      [])
   \<and> process_video
       (demo_env (\<lambda>u. if u = ''http://h/api?ac=detail&ids=2''
                       then Json (JObj [(''list'', JArr [JObj [(''vod_id'', JInt 2),
                                                               (''vod_play_url'', JStr ''ep1$http://v/2.m3u8'')]])])
                       else ReqError))
       (JStr ''http://h/api'')
       (JObj [(''vod_id'', JInt 1), (''vod_name'', JStr ''one''),
              (''vod_play_url'', JStr ''ep1$http://v/1.m3u8'')]) 5 0
     = (Inr (JObj [(''vod_id'', JInt 1), (''vod_name'', JStr ''one''),
                   (''vod_play_url'', JStr ''ep1$http://v/1.m3u8'')], 6, 0), [])"
proof -
  let ?e = "demo_env (\<lambda>u. if u = ''http://h/api?ac=detail&ids=2''
                     then Json (JObj [(''list'', JArr [JObj [(''vod_id'', JInt 2),
                                                             (''vod_play_url'', JStr ''ep1$http://v/2.m3u8'')]])])
                     else ReqError)"
  let ?one = "JObj [(''vod_id'', JInt 1), (''vod_name'', JStr ''one''),
                    (''vod_play_url'', JStr ''ep1$http://v/1.m3u8'')]"
  let ?two0 = "JObj [(''vod_id'', JInt 2), (''vod_name'', JStr ''two'')]"
  let ?two1 = "JObj [(''vod_id'', JInt 2), (''vod_name'', JStr ''two''),
                     (''vod_play_url'', JStr ''ep1$http://v/2.m3u8'')]"
  let ?fs0 = "demo_files ''demo.json'' (JObj [(''list'', JArr [?one, ?two0])])"
  let ?fs1 = "demo_files ''demo.json'' (JObj [(''list'', JArr [?one, ?two1])])"
  have run1: "update_site_with_play_urls ?e ?fs0 ''demo.json'' ''sites''
                = (Inr (2, 0, 2), ?fs1, [''http://h/api?ac=detail&ids=2''])"
    by (subst demo_run [where xs = "[?one, ?two0]"])
       (simp_all add: dict_get_def process_video_dict has_play_url_def fetch_vod_detail_def
          demo_detail_urls demo_env_def first_detail_def merge_detail_dict merged_keys_def
          detail_value_def put_if_def)
  have apart: "site_file_path ?e ''sites'' ''demo.json'' \<noteq> root_config_path ?e"
    by (simp add: site_file_path_def root_config_path_def os_path_join_def demo_env_def)
  have settled: "\<forall>doc. ?fs1 (site_file_path ?e ''sites'' ''demo.json'') = JsonFile doc
                \<longrightarrow> (\<forall>video\<in>set (doc_list doc). \<not> needs_fetch video)"
    by (simp add: demo_site_path demo_files_def doc_list_def needs_fetch_def has_play_url_def dict_get_def)
  have carries: "has_play_url ?one \<and> truthy (dict_get [(''vod_id'', JInt 1), (''vod_name'', JStr ''one''),
                    (''vod_play_url'', JStr ''ep1$http://v/1.m3u8'')] ''vod_id'' JNull)
      \<and> py_sliceable (dict_get [(''vod_id'', JInt 1), (''vod_name'', JStr ''one''),
                    (''vod_play_url'', JStr ''ep1$http://v/1.m3u8'')] ''vod_name'' (JStr ''??''))"
    by (simp add: has_play_url_def dict_get_def)
  note both = backfill_rerun [OF run1 apart]
  from both settled have again:
    "update_site_with_play_urls ?e ?fs1 ''demo.json'' ''sites'' = (Inr (2, 0, 2), ?fs1, [])"
    by auto
  from both carries have
    "process_video ?e (JStr ''http://h/api'') ?one 5 0 = (Inr (?one, 5 + 1, 0), [])"
    by blast
  with again show ?thesis by simp
qed

text \<open>
  The claim as the specification words it, zero network calls on every second run, fails: a
  record whose detail could not be fetched still lacks its playback URL, and the next run asks
  for it again. Here upstream refuses every request; the run leaves the files exactly as they
  were and has made one request, and so does every run after it. And a record that carries a
  playback URL is not counted when its \<^verbatim>\<open>vod_name\<close> is a number: the progress line
  slices the name, and the exception ends the run.
\<close>

theorem backfill_rerun_counterexample:
  "update_site_with_play_urls (demo_env (\<lambda>u. ReqError))
     (demo_files ''demo.json'' (JObj [(''list'', JArr [JObj [(''vod_id'', JInt 1), (''vod_name'', JStr ''film'')]])]))
     ''demo.json'' ''sites''
   = (Inr (0, 1, 1),
      demo_files ''demo.json'' (JObj [(''list'', JArr [JObj [(''vod_id'', JInt 1), (''vod_name'', JStr ''film'')]])]),
      [''http://h/api?ac=detail&ids=1''])
   \<and> process_video (demo_env (\<lambda>u. ReqError)) (JStr ''http://h/api'')
       (JObj [(''vod_id'', JInt 1), (''vod_name'', JInt 5), (''vod_play_url'', JStr ''u'')]) 0 0
     = (Inl TypeError, [])"
proof -
  have name: "process_video (demo_env (\<lambda>u. ReqError)) (JStr ''http://h/api'')
       (JObj [(''vod_id'', JInt 1), (''vod_name'', JInt 5), (''vod_play_url'', JStr ''u'')]) 0 0
     = (Inl TypeError, [])"
    by (simp add: process_video_dict has_play_url_def dict_get_def)
  have rerun: "update_site_with_play_urls (demo_env (\<lambda>u. ReqError))
     (demo_files ''demo.json'' (JObj [(''list'', JArr [JObj [(''vod_id'', JInt 1), (''vod_name'', JStr ''film'')]])]))
     ''demo.json'' ''sites''
   = (Inr (0, 1, 1),
      demo_files ''demo.json'' (JObj [(''list'', JArr [JObj [(''vod_id'', JInt 1), (''vod_name'', JStr ''film'')]])]),
      [''http://h/api?ac=detail&ids=1''])"
    by (subst demo_run [where xs = "[JObj [(''vod_id'', JInt 1), (''vod_name'', JStr ''film'')]]"])
       (simp_all add: dict_get_def process_video_dict has_play_url_def fetch_vod_detail_def
          demo_detail_url demo_env_def)
  from rerun name show ?thesis by (rule conjI)
qed

end
